theory Spec2Isabelle
  imports Main
begin

section \<open>Data model of the Converter component\<close>

text \<open>
  The types of \<^verbatim>\<open>Converter.tsx\<close>: \<^verbatim>\<open>FileStatus\<close> and \<^verbatim>\<open>TargetFormat\<close> are string
  unions, \<^verbatim>\<open>FileState\<close> is an object with two optional fields.  The status literals
  \<^verbatim>\<open>'idle' | 'converting' | 'done' | 'error'\<close> are capitalised here because
  \<^verbatim>\<open>done\<close> is a reserved word of the proof language.

  JavaScript strings are modelled by HOL strings, that is, by sequences of code units
  below 256.  Binary payloads are lists of byte values.
\<close>

datatype FileStatus = Idle | Converting | Done | Error

datatype TargetFormat = png | jpeg | webp

type_synonym bytes = "nat list"

text \<open>
  A browser \<^verbatim>\<open>File\<close>: its display name, its byte length, and what reading it yields
  (\<open>None\<close> when the browser can no longer read the file, so that \<^verbatim>\<open>fetchFile\<close> rejects).
\<close>

record File =
  name :: string
  size_bytes :: nat
  content :: "bytes option"

record FileState =
  theFile :: File
  status :: FileStatus
  outputUrl :: "string option"
  error :: "string option"

record Blob =
  blob_parts :: bytes
  blob_type :: string

text \<open>The outcome of an awaited promise; the rejection value is only logged by the code.\<close>

datatype 'a settled = Fulfilled 'a | Rejected

text \<open>
  The \<^verbatim>\<open>FFmpeg\<close> object is a prop of the component and comes from a library outside the
  repository, so it is a parameter of the model: four operations on an engine state \<open>'e\<close>,
  each of which settles and leaves a new engine state behind, also when it rejects.
\<close>

record 'e FFmpeg =
  writeFile :: "string \<Rightarrow> bytes \<Rightarrow> 'e \<Rightarrow> unit settled \<times> 'e"
  exec :: "string list \<Rightarrow> 'e \<Rightarrow> unit settled \<times> 'e"
  readFile :: "string \<Rightarrow> 'e \<Rightarrow> bytes settled \<times> 'e"
  deleteFile :: "string \<Rightarrow> 'e \<Rightarrow> unit settled \<times> 'e"

text \<open>The engine calls the component issues, recorded in issue order (a ghost trace).\<close>

datatype call =
  WriteFile string bytes
| Exec "string list"
| ReadFile string
| DeleteFile string

text \<open>
  Everything a command of the component can read or change: the three \<^verbatim>\<open>useState\<close> cells,
  the state of the shared engine, the browser's registry of object URLs
  (\<^verbatim>\<open>URL.createObjectURL\<close> adds an entry, only \<^verbatim>\<open>URL.revokeObjectURL\<close> removes one), and the
  trace of engine calls.
\<close>

record 'e world =
  targetFormat :: TargetFormat
  fileStates :: "FileState list"
  isConverting :: bool
  engine :: 'e
  objectUrls :: "(string \<times> Blob) list"
  calls :: "call list"

section \<open>Strings\<close>

text \<open>Template literals print a number in decimal and a format as its literal.\<close>

definition digit :: "nat \<Rightarrow> char" where
  "digit d = char_of (48 + d)"

fun showNat :: "nat \<Rightarrow> string" where
  "showNat n = (if n < 10 then [digit n] else showNat (n div 10) @ [digit (n mod 10)])"

declare showNat.simps [simp del]

fun formatString :: "TargetFormat \<Rightarrow> string" where
  "formatString png = ''png''"
| "formatString jpeg = ''jpeg''"
| "formatString webp = ''webp''"

text \<open>
  The class \<^verbatim>\<open>\s\<close> of a JavaScript regular expression, on code units below 256: tab, line
  feed, vertical tab, form feed, carriage return, space and no-break space.
\<close>

definition isWhitespace :: "char \<Rightarrow> bool" where
  "isWhitespace c = (of_char c \<in> {9, 10, 11, 12, 13, 32, 160 :: nat})"

text \<open>\<^verbatim>\<open>s.replace(/\s/g, '_')\<close>\<close>

definition replaceWhitespace :: "string \<Rightarrow> string" where
  "replaceWhitespace s = map (\<lambda>c. if isWhitespace c then CHR ''_'' else c) s"

text \<open>\<^verbatim>\<open>s.split(sep)\<close> for a one-character separator: never empty, \<^verbatim>\<open>''.split('.')\<close> is \<^verbatim>\<open>['']\<close>.\<close>

fun split :: "char \<Rightarrow> string \<Rightarrow> string list" where
  "split sep [] = [[]]"
| "split sep (c # cs) =
     (if c = sep then [] # split sep cs
      else (case split sep cs of
              [] \<Rightarrow> [[c]]
            | p # ps \<Rightarrow> (c # p) # ps))"

text \<open>Element 0 of an array inside a template literal; an empty array would print \<^verbatim>\<open>undefined\<close>.\<close>

definition first_element :: "string list \<Rightarrow> string" where
  "first_element xs = (case xs of [] \<Rightarrow> ''undefined'' | x # _ \<Rightarrow> x)"

section \<open>Asynchronous code as state passing\<close>

text \<open>
  An \<^verbatim>\<open>async\<close> block takes the world and returns how it settled together with the world it
  leaves.  \<open>await_then\<close> is \<^verbatim>\<open>await\<close> followed by the rest of the block: a rejection skips the
  rest.  \<open>try_catch\<close> and \<open>try_finally\<close> are the two halves of \<^verbatim>\<open>try/catch/finally\<close>.
\<close>

type_synonym ('a, 'e) async = "'e world \<Rightarrow> 'a settled \<times> 'e world"

definition resolved :: "'a \<Rightarrow> ('a, 'e) async" where
  "resolved a w = (Fulfilled a, w)"

definition sync :: "('e world \<Rightarrow> 'e world) \<Rightarrow> (unit, 'e) async" where
  "sync f w = (Fulfilled (), f w)"

definition await_then :: "('a, 'e) async \<Rightarrow> ('a \<Rightarrow> ('b, 'e) async) \<Rightarrow> ('b, 'e) async" where
  "await_then m k w =
     (case m w of
        (Fulfilled a, w') \<Rightarrow> k a w'
      | (Rejected, w') \<Rightarrow> (Rejected, w'))"

definition try_catch :: "('a, 'e) async \<Rightarrow> ('a, 'e) async \<Rightarrow> ('a, 'e) async" where
  "try_catch body handler w =
     (case body w of
        (Fulfilled a, w') \<Rightarrow> (Fulfilled a, w')
      | (Rejected, w') \<Rightarrow> handler w')"

definition try_finally :: "('a, 'e) async \<Rightarrow> (unit, 'e) async \<Rightarrow> ('a, 'e) async" where
  "try_finally body cleanup w =
     (case body w of
        (r, w') \<Rightarrow>
          (case cleanup w' of
             (Fulfilled _, w'') \<Rightarrow> (r, w'')
           | (Rejected, w'') \<Rightarrow> (Rejected, w'')))"

section \<open>The collaborators of convertFile\<close>

text \<open>An engine call is recorded in the trace, then performed on the engine state.\<close>

definition ffmpeg_writeFile :: "'e FFmpeg \<Rightarrow> string \<Rightarrow> bytes \<Rightarrow> (unit, 'e) async" where
  "ffmpeg_writeFile ffmpeg path d w =
     (case writeFile ffmpeg path d (engine w) of
        (r, e') \<Rightarrow> (r, w\<lparr>engine := e', calls := calls w @ [WriteFile path d]\<rparr>))"

definition ffmpeg_exec :: "'e FFmpeg \<Rightarrow> string list \<Rightarrow> (unit, 'e) async" where
  "ffmpeg_exec ffmpeg cmd w =
     (case exec ffmpeg cmd (engine w) of
        (r, e') \<Rightarrow> (r, w\<lparr>engine := e', calls := calls w @ [Exec cmd]\<rparr>))"

definition ffmpeg_readFile :: "'e FFmpeg \<Rightarrow> string \<Rightarrow> (bytes, 'e) async" where
  "ffmpeg_readFile ffmpeg path w =
     (case readFile ffmpeg path (engine w) of
        (r, e') \<Rightarrow> (r, w\<lparr>engine := e', calls := calls w @ [ReadFile path]\<rparr>))"

definition ffmpeg_deleteFile :: "'e FFmpeg \<Rightarrow> string \<Rightarrow> (unit, 'e) async" where
  "ffmpeg_deleteFile ffmpeg path w =
     (case deleteFile ffmpeg path (engine w) of
        (r, e') \<Rightarrow> (r, w\<lparr>engine := e', calls := calls w @ [DeleteFile path]\<rparr>))"

text \<open>\<^verbatim>\<open>fetchFile(file)\<close> of \<^verbatim>\<open>@ffmpeg/util\<close> reads the bytes of the file.\<close>

definition fetchFile :: "File \<Rightarrow> (bytes, 'e) async" where
  "fetchFile f w = (case content f of None \<Rightarrow> (Rejected, w) | Some d \<Rightarrow> (Fulfilled d, w))"

text \<open>
  \<^verbatim>\<open>URL.createObjectURL(blob)\<close> registers the blob under a URL no earlier call returned.
  Nothing in the component removes an entry, so the number of entries is a fresh serial.
\<close>

definition createObjectURL :: "Blob \<Rightarrow> (string, 'e) async" where
  "createObjectURL b w =
     (let url = ''blob:'' @ showNat (length (objectUrls w))
      in (Fulfilled url, w\<lparr>objectUrls := objectUrls w @ [(url, b)]\<rparr>))"

text \<open>
  The three functional updates \<^verbatim>\<open>setFileStates(prev => { const next = [...prev];
  next[index] = { ...next[index], ... }; return next })\<close>.  Each is applied to the state the
  previous update left.  Its only caller passes an index below the length (see
  \<open>handleConvertAll\<close>), where the assignment replaces one element; the list update of HOL
  does the same there and leaves a shorter list alone.
\<close>

definition setFileStates :: "(FileState list \<Rightarrow> FileState list) \<Rightarrow> 'e world \<Rightarrow> 'e world" where
  "setFileStates f w = w\<lparr>fileStates := f (fileStates w)\<rparr>"

definition markConverting :: "nat \<Rightarrow> 'e world \<Rightarrow> 'e world" where
  "markConverting index =
     setFileStates (\<lambda>prev. prev[index := (prev ! index)\<lparr>status := Converting, error := None\<rparr>])"

definition markDone :: "nat \<Rightarrow> string \<Rightarrow> 'e world \<Rightarrow> 'e world" where
  "markDone index url =
     setFileStates (\<lambda>prev. prev[index := (prev ! index)\<lparr>status := Done, outputUrl := Some url\<rparr>])"

definition markError :: "nat \<Rightarrow> 'e world \<Rightarrow> 'e world" where
  "markError index =
     setFileStates (\<lambda>prev. prev[index :=
        (prev ! index)\<lparr>status := Error, error := Some ''Conversion failed''\<rparr>])"

section \<open>convertFile\<close>

definition inputName :: "nat \<Rightarrow> File \<Rightarrow> string" where
  "inputName index f = ''input_'' @ showNat index @ ''_'' @ replaceWhitespace (name f)"

definition outputName :: "nat \<Rightarrow> TargetFormat \<Rightarrow> string" where
  "outputName index fmt = ''output_'' @ showNat index @ ''.'' @ formatString fmt"

text \<open>
  The body of the \<^verbatim>\<open>try\<close> block.  \<open>ffmpeg\<close> and \<open>fmt\<close> are the values the callback
  closed over (\<^verbatim>\<open>useCallback(..., [ffmpeg, targetFormat])\<close>).
\<close>

definition convertFile_try :: "'e FFmpeg \<Rightarrow> TargetFormat \<Rightarrow> FileState \<Rightarrow> nat \<Rightarrow> (unit, 'e) async" where
  "convertFile_try ffmpeg fmt fileState index =
     await_then (sync (markConverting index)) (\<lambda>_.
     await_then (fetchFile (theFile fileState)) (\<lambda>fetched.
     await_then (ffmpeg_writeFile ffmpeg (inputName index (theFile fileState)) fetched) (\<lambda>_.
     await_then (ffmpeg_exec ffmpeg
        [''-i'', inputName index (theFile fileState), outputName index fmt]) (\<lambda>_.
     await_then (ffmpeg_readFile ffmpeg (outputName index fmt)) (\<lambda>data.
     await_then (createObjectURL
        \<lparr>blob_parts = data, blob_type = ''image/'' @ formatString fmt\<rparr>) (\<lambda>url.
     await_then (sync (markDone index url)) (\<lambda>_.
     ffmpeg_deleteFile ffmpeg (outputName index fmt))))))))"

definition convertFile :: "'e FFmpeg \<Rightarrow> TargetFormat \<Rightarrow> FileState \<Rightarrow> nat \<Rightarrow> (unit, 'e) async" where
  "convertFile ffmpeg fmt fileState index =
     try_finally
       (try_catch
          (convertFile_try ffmpeg fmt fileState index)
          (sync (markError index)))
       (try_catch
          (ffmpeg_deleteFile ffmpeg (inputName index (theFile fileState)))
          (resolved ()))"

section \<open>handleConvertAll\<close>

text \<open>
  The loop runs over the \<^verbatim>\<open>fileStates\<close> array the callback closed over, here paired with
  the indices; the skip test reads that snapshot, while every update goes to the live
  state.  A rejection of the awaited \<^verbatim>\<open>convertFile\<close> would leave the loop.
\<close>

fun convertLoop :: "'e FFmpeg \<Rightarrow> TargetFormat \<Rightarrow> (nat \<times> FileState) list \<Rightarrow> (unit, 'e) async" where
  "convertLoop ffmpeg fmt [] = resolved ()"
| "convertLoop ffmpeg fmt ((i, s) # rest) =
     (if status s \<noteq> Done
      then await_then (convertFile ffmpeg fmt s i) (\<lambda>_. convertLoop ffmpeg fmt rest)
      else convertLoop ffmpeg fmt rest)"

definition setIsConverting :: "bool \<Rightarrow> 'e world \<Rightarrow> 'e world" where
  "setIsConverting b w = w\<lparr>isConverting := b\<rparr>"

text \<open>
  A call of the handler the last render produced: the closure holds the \<^verbatim>\<open>fileStates\<close> and
  the \<^verbatim>\<open>targetFormat\<close> of that render.
\<close>

definition handleConvertAll :: "'e FFmpeg \<Rightarrow> (unit, 'e) async" where
  "handleConvertAll ffmpeg w =
     (await_then (sync (setIsConverting True)) (\<lambda>_.
      await_then (convertLoop ffmpeg (targetFormat w) (enumerate 0 (fileStates w))) (\<lambda>_.
      sync (setIsConverting False)))) w"

section \<open>Downloads\<close>

text \<open>The \<^verbatim>\<open>download\<close> attribute, the same template in \<^verbatim>\<open>downloadAll\<close> and in the record's link.\<close>

definition downloadName :: "File \<Rightarrow> TargetFormat \<Rightarrow> string" where
  "downloadName f fmt = first_element (split CHR ''.'' (name f)) @ ''.'' @ formatString fmt"

record link =
  href :: "string option"
  download :: string

text \<open>A string is truthy when it is present and not empty.\<close>

definition truthy :: "string option \<Rightarrow> bool" where
  "truthy u = (case u of None \<Rightarrow> False | Some s \<Rightarrow> s \<noteq> [])"

text \<open>\<^verbatim>\<open>downloadAll\<close>: the links clicked, in the order of the array.\<close>

definition downloadAll :: "'e world \<Rightarrow> link list" where
  "downloadAll w =
     map (\<lambda>s. \<lparr>href = outputUrl s, download = downloadName (theFile s) (targetFormat w)\<rparr>)
       (filter (\<lambda>s. truthy (outputUrl s) \<and> status s = Done) (fileStates w))"

text \<open>The anchor rendered in a record's row, present when the record is done.\<close>

definition recordLink :: "TargetFormat \<Rightarrow> FileState \<Rightarrow> link option" where
  "recordLink fmt s =
     (if status s = Done
      then Some \<lparr>href = outputUrl s, download = downloadName (theFile s) fmt\<rparr>
      else None)"

definition setTargetFormat :: "TargetFormat \<Rightarrow> 'e world \<Rightarrow> 'e world" where
  "setTargetFormat fmt w = w\<lparr>targetFormat := fmt\<rparr>"


section \<open>Keyboard shortcuts and buttons\<close>

text \<open>\<^verbatim>\<open>String.prototype.toLowerCase\<close> on code units below 256.\<close>

definition toLowerCase :: "string \<Rightarrow> string" where
  "toLowerCase k =
     map (\<lambda>c. let n = (of_char c :: nat)
              in if (65 \<le> n \<and> n \<le> 90) \<or> (192 \<le> n \<and> n \<le> 222 \<and> n \<noteq> 215)
                 then char_of (n + 32) else c) k"

text \<open>
  What the handlers read from a \<^verbatim>\<open>KeyboardEvent\<close>: whether its target is an input or a
  text area, the shift flag and the key.
\<close>

record KeyboardEvent =
  targetIsInput :: bool
  shiftKey :: bool
  key :: string

datatype command = SetTargetFormat TargetFormat | ConvertAll | DownloadAll

text \<open>\<^verbatim>\<open>handleKeyDown\<close> of the Converter: the command a key press runs, if any.\<close>

definition handleKeyDown :: "KeyboardEvent \<Rightarrow> command option" where
  "handleKeyDown e =
     (if targetIsInput e then None
      else if shiftKey e then
        (let k = toLowerCase (key e)
         in if k = ''j'' then Some (SetTargetFormat jpeg)
            else if k = ''p'' then Some (SetTargetFormat png)
            else if k = ''w'' then Some (SetTargetFormat webp)
            else if k = ''c'' then Some ConvertAll
            else if k = ''d'' then Some DownloadAll
            else None)
      else None)"

text \<open>The \<^verbatim>\<open>disabled\<close> attribute of the convert button and of the format select.\<close>

definition convertButtonDisabled :: "'e world \<Rightarrow> bool" where
  "convertButtonDisabled w = (isConverting w \<or> (\<forall>s \<in> set (fileStates w). status s = Done))"

definition formatSelectDisabled :: "'e world \<Rightarrow> bool" where
  "formatSelectDisabled w = isConverting w"

section \<open>Asynchronous execution, one await at a time\<close>

text \<open>
  JavaScript runs one continuation at a time and switches at \<^verbatim>\<open>await\<close>.  A running call of
  \<^verbatim>\<open>handleConvertAll\<close> is an activation: the format and the array it closed over (the part of the
  array not yet visited, the record being converted at its head) and the promise it is
  suspended on together with the way that promise settles.  An engine call acts on the
  engine when it is issued (the engine serves its requests in the order received); the
  activation sees the outcome when it is resumed.
\<close>

datatype awaited =
  Fetch "bytes settled"
| Write "unit settled"
| Execute "unit settled"
| Read "bytes settled"
| DeleteOutput "unit settled"
| DeleteInput "unit settled"

record activation =
  closureFormat :: TargetFormat
  remaining :: "(nat \<times> FileState) list"
  awaiting :: "awaited option"

record 'e system =
  page :: "'e world"
  activations :: "activation list"

text \<open>The \<^verbatim>\<open>finally\<close> block up to its await, and the \<^verbatim>\<open>catch\<close> block followed by it.\<close>

definition enterFinally :: "'e FFmpeg \<Rightarrow> nat \<Rightarrow> FileState \<Rightarrow> 'e world \<Rightarrow> awaited option \<times> 'e world" where
  "enterFinally ffmpeg i s w =
     (case ffmpeg_deleteFile ffmpeg (inputName i (theFile s)) w of
        (r, w') \<Rightarrow> (Some (DeleteInput r), w'))"

definition enterCatch :: "'e FFmpeg \<Rightarrow> nat \<Rightarrow> FileState \<Rightarrow> 'e world \<Rightarrow> awaited option \<times> 'e world" where
  "enterCatch ffmpeg i s w = enterFinally ffmpeg i s (markError i w)"

text \<open>
  The loop of \<^verbatim>\<open>handleConvertAll\<close> from its head to the first await of the next
  \<^verbatim>\<open>convertFile\<close>, or to the end of the handler.
\<close>

fun advance :: "(nat \<times> FileState) list \<Rightarrow> 'e world \<Rightarrow>
    (nat \<times> FileState) list \<times> awaited option \<times> 'e world" where
  "advance [] w = ([], None, setIsConverting False w)"
| "advance ((i, s) # rest) w =
     (if status s \<noteq> Done
      then (case fetchFile (theFile s) (markConverting i w) of
              (r, w') \<Rightarrow> ((i, s) # rest, Some (Fetch r), w'))
      else advance rest w)"

text \<open>An activation is resumed: the code from the await it was suspended on to the next one.\<close>

definition resumeActivation :: "'e FFmpeg \<Rightarrow> activation \<Rightarrow> 'e world \<Rightarrow> activation \<times> 'e world" where
  "resumeActivation ffmpeg t w =
     (case (awaiting t, remaining t) of
        (Some a, (i, s) # rest) \<Rightarrow>
          (let inp = inputName i (theFile s);
               outp = outputName i (closureFormat t);
               suspend = (\<lambda>(a', w'). (t\<lparr>awaiting := a'\<rparr>, w'))
           in case a of
                Fetch (Fulfilled fetched) \<Rightarrow>
                  (case ffmpeg_writeFile ffmpeg inp fetched w of
                     (r, w') \<Rightarrow> suspend (Some (Write r), w'))
              | Write (Fulfilled _) \<Rightarrow>
                  (case ffmpeg_exec ffmpeg [''-i'', inp, outp] w of
                     (r, w') \<Rightarrow> suspend (Some (Execute r), w'))
              | Execute (Fulfilled _) \<Rightarrow>
                  (case ffmpeg_readFile ffmpeg outp w of
                     (r, w') \<Rightarrow> suspend (Some (Read r), w'))
              | Read (Fulfilled data) \<Rightarrow>
                  (case createObjectURL
                          \<lparr>blob_parts = data,
                           blob_type = ''image/'' @ formatString (closureFormat t)\<rparr> w of
                     (Fulfilled url, w1) \<Rightarrow>
                       (case ffmpeg_deleteFile ffmpeg outp (markDone i url w1) of
                          (r, w') \<Rightarrow> suspend (Some (DeleteOutput r), w'))
                   | (Rejected, w1) \<Rightarrow> suspend (enterCatch ffmpeg i s w1))
              | DeleteOutput (Fulfilled _) \<Rightarrow> suspend (enterFinally ffmpeg i s w)
              | DeleteInput _ \<Rightarrow>
                  (case advance rest w of
                     (rest', a', w') \<Rightarrow> (t\<lparr>remaining := rest', awaiting := a'\<rparr>, w'))
              | _ \<Rightarrow> suspend (enterCatch ffmpeg i s w))
      | _ \<Rightarrow> (t, w))"

text \<open>
  A call of \<^verbatim>\<open>handleConvertAll\<close> runs up to its first await and leaves an activation behind.  The
  handler called is the one of the last render, so it closes over the current cells.
\<close>

definition startConvertAll :: "'e system \<Rightarrow> 'e system" where
  "startConvertAll sys =
     (case advance (enumerate 0 (fileStates (page sys))) (setIsConverting True (page sys)) of
        (rest, a, w') \<Rightarrow>
          \<lparr>page = w',
           activations = activations sys @
             [\<lparr>closureFormat = targetFormat (page sys), remaining = rest, awaiting = a\<rparr>]\<rparr>)"

datatype event =
  KeyDown KeyboardEvent
| ClickConvert
| SelectFormat TargetFormat
| Resume nat

text \<open>
  One turn of the event loop: a key press goes through \<^verbatim>\<open>handleKeyDown\<close>, a click or a
  selection reaches its handler unless the control is disabled, and a suspended activation is
  resumed.
\<close>

definition runCommand :: "command \<Rightarrow> 'e system \<Rightarrow> 'e system" where
  "runCommand c sys =
     (case c of
        SetTargetFormat fmt \<Rightarrow> sys\<lparr>page := setTargetFormat fmt (page sys)\<rparr>
      | ConvertAll \<Rightarrow> startConvertAll sys
      | DownloadAll \<Rightarrow> sys)"

definition turn :: "'e FFmpeg \<Rightarrow> event \<Rightarrow> 'e system \<Rightarrow> 'e system" where
  "turn ffmpeg ev sys =
     (case ev of
        KeyDown e \<Rightarrow> (case handleKeyDown e of None \<Rightarrow> sys | Some c \<Rightarrow> runCommand c sys)
      | ClickConvert \<Rightarrow>
          (if convertButtonDisabled (page sys) then sys else startConvertAll sys)
      | SelectFormat fmt \<Rightarrow>
          (if formatSelectDisabled (page sys) then sys
           else sys\<lparr>page := setTargetFormat fmt (page sys)\<rparr>)
      | Resume k \<Rightarrow>
          (if k < length (activations sys)
           then (case resumeActivation ffmpeg (activations sys ! k) (page sys) of
                   (t', w') \<Rightarrow> \<lparr>page = w', activations = (activations sys)[k := t']\<rparr>)
           else sys))"

fun turns :: "'e FFmpeg \<Rightarrow> event list \<Rightarrow> 'e system \<Rightarrow> 'e system" where
  "turns ffmpeg [] sys = sys"
| "turns ffmpeg (ev # evs) sys = turns ffmpeg evs (turn ffmpeg ev sys)"

text \<open>
  The system in which one call of the handler is running, right after its loop went from
  its head to the next await (or to the end).
\<close>

definition lone :: "activation \<Rightarrow> (nat \<times> FileState) list \<times> awaited option \<times> 'e world \<Rightarrow> 'e system" where
  "lone t x = (case x of (rest, a, w) \<Rightarrow> \<lparr>page = w, activations = [t\<lparr>remaining := rest, awaiting := a\<rparr>]\<rparr>)"

text \<open>The conversions in flight: the activations suspended inside \<^verbatim>\<open>convertFile\<close>.\<close>

definition inFlight :: "'e system \<Rightarrow> nat" where
  "inFlight sys = length (filter (\<lambda>t. awaiting t \<noteq> None) (activations sys))"

text \<open>
  The events that reach \<^verbatim>\<open>handleConvertAll\<close> through the button only, and the discipline of
  one conversion at a time: a handler is running exactly while \<^verbatim>\<open>isConverting\<close> is set.
\<close>

definition viaControls :: "event \<Rightarrow> bool" where
  "viaControls ev =
     (case ev of KeyDown e \<Rightarrow> handleKeyDown e \<noteq> Some ConvertAll | _ \<Rightarrow> True)"

definition oneAtATime :: "'e system \<Rightarrow> bool" where
  "oneAtATime sys = (inFlight sys = (if isConverting (page sys) then 1 else 0))"

text \<open>
  The virtual files an activation may have in the engine while it is suspended: its input
  name from the write on, and its output name from a fulfilled execution until the read
  rejected or the removal of the output was issued; none before the write and none once
  the removal of the input was issued.
\<close>

definition owned :: "activation \<Rightarrow> string set" where
  "owned t =
     (case (awaiting t, remaining t) of
        (Some a, (i, s) # rest) \<Rightarrow>
          (let inp = inputName i (theFile s);
               outp = outputName i (closureFormat t)
           in case a of
                Fetch r \<Rightarrow> {}
              | Write r \<Rightarrow> {inp}
              | Execute r \<Rightarrow> (if r = Rejected then {inp} else {inp, outp})
              | Read r \<Rightarrow> (if r = Rejected then {inp} else {inp, outp})
              | DeleteOutput r \<Rightarrow> {inp}
              | DeleteInput r \<Rightarrow> {})
      | _ \<Rightarrow> {})"

text \<open>The names held by the activations of a system.\<close>

definition held :: "'e system \<Rightarrow> string set" where
  "held sys = \<Union> (owned ` set (activations sys))"

section \<open>The App component\<close>

text \<open>
  \<^verbatim>\<open>App\<close> holds the \<^verbatim>\<open>files\<close> and, once the engine is loaded, renders the Dropzone
  while there are none and the Converter otherwise.  The cells of the Converter exist while it is mounted; its
  \<^verbatim>\<open>useState\<close> initialisers run when it mounts.
\<close>

record 'e app =
  files :: "File list"
  converter :: "'e world"

datatype view = DropzoneView | ConverterView

definition render :: "'e app \<Rightarrow> view" where
  "render a = (if length (files a) = 0 then DropzoneView else ConverterView)"

definition mount :: "File list \<Rightarrow> 'e world \<Rightarrow> 'e world" where
  "mount fs w =
     w\<lparr>targetFormat := png,
       fileStates := map (\<lambda>f. \<lparr>theFile = f, status = Idle, outputUrl = None, error = None\<rparr>) fs,
       isConverting := False\<rparr>"

definition handleFilesSelected :: "File list \<Rightarrow> 'e app \<Rightarrow> 'e app" where
  "handleFilesSelected newFiles a =
     \<lparr>files = newFiles,
      converter = (if render a = DropzoneView \<and> newFiles \<noteq> []
                   then mount newFiles (converter a) else converter a)\<rparr>"

definition clearFiles :: "'e app \<Rightarrow> 'e app" where
  "clearFiles a = a\<lparr>files := []\<rparr>"

text \<open>The records of the current batch: those of the mounted Converter.\<close>

definition batch :: "'e app \<Rightarrow> FileState list" where
  "batch a = (if render a = ConverterView then fileStates (converter a) else [])"

section \<open>The engine\<close>

text \<open>
  The await of the \<^verbatim>\<open>try\<close> block that rejects first, on an engine in state \<open>e0\<close>: the
  byte transfer (\<^verbatim>\<open>fetchFile\<close> and \<^verbatim>\<open>writeFile\<close>), the execution, the retrieval
  (\<^verbatim>\<open>readFile\<close>) or the removal of the output file; \<open>None\<close> when none rejects.
\<close>

datatype step = Transfer | Execution | Retrieval | OutputRemoval

definition failingStep :: "'e FFmpeg \<Rightarrow> TargetFormat \<Rightarrow> FileState \<Rightarrow> nat \<Rightarrow> 'e \<Rightarrow> step option" where
  "failingStep ffmpeg fmt fileState index e0 =
     (case content (theFile fileState) of
        None \<Rightarrow> Some Transfer
      | Some fetched \<Rightarrow>
         (case writeFile ffmpeg (inputName index (theFile fileState)) fetched e0 of
            (Rejected, _) \<Rightarrow> Some Transfer
          | (Fulfilled _, e1) \<Rightarrow>
             (case exec ffmpeg
                     [''-i'', inputName index (theFile fileState), outputName index fmt] e1 of
                (Rejected, _) \<Rightarrow> Some Execution
              | (Fulfilled _, e2) \<Rightarrow>
                 (case readFile ffmpeg (outputName index fmt) e2 of
                    (Rejected, _) \<Rightarrow> Some Retrieval
                  | (Fulfilled _, e3) \<Rightarrow>
                     (case deleteFile ffmpeg (outputName index fmt) e3 of
                        (Rejected, _) \<Rightarrow> Some OutputRemoval
                      | (Fulfilled _, _) \<Rightarrow> None)))))"

text \<open>
  What the cleanup discipline relies on, for an engine whose state \<open>e\<close> holds the virtual
  files \<open>vfiles e\<close>: a write adds at most its own name, an execution that rejects adds
  nothing and one that is fulfilled adds at most its output name, a read adds nothing and
  rejects only a name that is absent, and a name is absent after its deletion (which
  rejects when it was absent before).
\<close>

definition engineContract :: "'e FFmpeg \<Rightarrow> ('e \<Rightarrow> string set) \<Rightarrow> bool" where
  "engineContract ffmpeg vfiles =
     ((\<forall>p d e. vfiles (snd (writeFile ffmpeg p d e)) \<subseteq> insert p (vfiles e)) \<and>
      (\<forall>cmd e. fst (exec ffmpeg cmd e) = Rejected \<longrightarrow>
         vfiles (snd (exec ffmpeg cmd e)) \<subseteq> vfiles e) \<and>
      (\<forall>opt p out e. vfiles (snd (exec ffmpeg [opt, p, out] e)) \<subseteq> insert out (vfiles e)) \<and>
      (\<forall>p e. vfiles (snd (readFile ffmpeg p e)) \<subseteq> vfiles e) \<and>
      (\<forall>p e. fst (readFile ffmpeg p e) = Rejected \<longrightarrow> p \<notin> vfiles e) \<and>
      (\<forall>p e. vfiles (snd (deleteFile ffmpeg p e)) \<subseteq> vfiles e - {p}))"

text \<open>
  Modelled from the spec: the Engine Handle of section 6, whose implementation (the
  \<^verbatim>\<open>@ffmpeg/ffmpeg\<close> package) is not part of the repository.  Its virtual file system is an
  association list.  \<^verbatim>\<open>writeVirtualFile\<close> stores the bytes; \<^verbatim>\<open>execute\<close> rejects a
  malformed command and an input the codec rejects; \<^verbatim>\<open>readVirtualFile\<close> and
  \<^verbatim>\<open>deleteVirtualFile\<close> reject an absent name.  The section leaves open which inputs
  the codec rejects (\<open>codec\<close>: it encodes an input or refuses it) and whether a read
  disposes of the file it returns, which section 4.1 considers (\<open>readDisposes\<close>).
\<close>

datatype transcoding = Encoded bytes | Refused

record profile =
  codec :: "bytes \<Rightarrow> transcoding"
  readDisposes :: bool

type_synonym vfs = "(string \<times> bytes) list"

definition vfsDelete :: "string \<Rightarrow> vfs \<Rightarrow> vfs" where
  "vfsDelete p fs = filter (\<lambda>entry. fst entry \<noteq> p) fs"

definition vfsWrite :: "string \<Rightarrow> bytes \<Rightarrow> vfs \<Rightarrow> vfs" where
  "vfsWrite p d fs = (p, d) # vfsDelete p fs"

definition vfsExec :: "profile \<Rightarrow> string list \<Rightarrow> vfs \<Rightarrow> unit settled \<times> vfs" where
  "vfsExec pr cmd fs =
     (case cmd of
        [opt, p, out] \<Rightarrow>
          (if opt = ''-i'' then
             (case map_of fs p of
                None \<Rightarrow> (Rejected, fs)
              | Some d \<Rightarrow>
                 (case codec pr d of
                    Encoded d' \<Rightarrow> (Fulfilled (), vfsWrite out d' fs)
                  | Refused \<Rightarrow> (Rejected, fs)))
           else (Rejected, fs))
      | _ \<Rightarrow> (Rejected, fs))"

definition vfsRead :: "profile \<Rightarrow> string \<Rightarrow> vfs \<Rightarrow> bytes settled \<times> vfs" where
  "vfsRead pr p fs =
     (case map_of fs p of
        None \<Rightarrow> (Rejected, fs)
      | Some d \<Rightarrow> (Fulfilled d, if readDisposes pr then vfsDelete p fs else fs))"

definition vfsRemove :: "string \<Rightarrow> vfs \<Rightarrow> unit settled \<times> vfs" where
  "vfsRemove p fs =
     (case map_of fs p of
        None \<Rightarrow> (Rejected, fs)
      | Some _ \<Rightarrow> (Fulfilled (), vfsDelete p fs))"

text \<open>
  Modelled from the spec: the four operations of the Engine Handle contract (section 6),
  in place of the \<^verbatim>\<open>FFmpeg\<close> class of the library, over the virtual file system above.
\<close>

definition virtualEngine :: "profile \<Rightarrow> vfs FFmpeg" where
  "virtualEngine pr =
     \<lparr>writeFile = (\<lambda>p d fs. (Fulfilled (), vfsWrite p d fs)),
      exec = vfsExec pr,
      readFile = vfsRead pr,
      deleteFile = vfsRemove\<rparr>"

definition vfsNames :: "vfs \<Rightarrow> string set" where
  "vfsNames fs = fst ` set fs"

section \<open>Sample inputs\<close>

text \<open>A codec that accepts every input, on an engine whose read keeps or disposes of the file.\<close>

definition healthy :: profile where
  "healthy = \<lparr>codec = (\<lambda>d. Encoded (rev d)), readDisposes = False\<rparr>"

definition disposing :: profile where
  "disposing = \<lparr>codec = (\<lambda>d. Encoded (rev d)), readDisposes = True\<rparr>"

text \<open>Rejects the payload that starts with a zero byte and encodes the others.\<close>

definition selective :: profile where
  "selective =
     \<lparr>codec = (\<lambda>d. if take 1 d = [0] then Refused else Encoded (rev d)),
      readDisposes = False\<rparr>"

definition imageFile :: "string \<Rightarrow> bytes \<Rightarrow> File" where
  "imageFile n d = \<lparr>name = n, size_bytes = length d, content = Some d\<rparr>"

text \<open>The page right after the given files were dropped on an empty engine.\<close>

definition freshPage :: "File list \<Rightarrow> vfs world" where
  "freshPage fs =
     mount fs \<lparr>targetFormat = png, fileStates = [], isConverting = False, engine = [],
       objectUrls = [], calls = []\<rparr>"

text \<open>Scenario A of the specification: one file named \<^verbatim>\<open>photo.HEIC.jpg\<close>, converted to PNG.\<close>

definition photo :: File where
  "photo = imageFile ''photo.HEIC.jpg'' [1, 2, 3]"

definition scenarioA :: "vfs world" where
  "scenarioA =
     snd (convertFile (virtualEngine healthy) png (fileStates (freshPage [photo]) ! 0) 0
            (freshPage [photo]))"

text \<open>
  Scenario B of the specification: three files, and the engine rejects the second; the
  page the batch pass leaves.
\<close>

definition scenarioB :: "vfs world" where
  "scenarioB =
     freshPage [imageFile ''a b.png'' [1, 2], imageFile ''b.png'' [0, 2],
       imageFile ''c.x.png'' [3]]"

definition afterB :: "vfs world" where
  "afterB = snd (handleConvertAll (virtualEngine selective) scenarioB)"

text \<open>The key press Shift+C, and the page with one dropped file and no handler running.\<close>

definition shiftC :: KeyboardEvent where
  "shiftC = \<lparr>targetIsInput = False, shiftKey = True, key = ''C''\<rparr>"

definition loadedPage :: "vfs system" where
  "loadedPage = \<lparr>page = freshPage [photo], activations = []\<rparr>"

text \<open>The application after the file of Scenario A was dropped and converted.\<close>

definition startedApp :: "vfs app" where
  "startedApp =
     \<lparr>files = [],
      converter = \<lparr>targetFormat = png, fileStates = [], isConverting = False, engine = [],
        objectUrls = [], calls = []\<rparr>\<rparr>"

definition convertedApp :: "vfs app" where
  "convertedApp =
     (let a = handleFilesSelected [photo] startedApp
      in a\<lparr>converter := snd (handleConvertAll (virtualEngine healthy) (converter a))\<rparr>)"

text \<open>Two conversions of the same record, resumed in turn.\<close>

definition alternately :: "event list" where
  "alternately =
     [Resume 0, Resume 1, Resume 0, Resume 1, Resume 0, Resume 1,
      Resume 0, Resume 1, Resume 0, Resume 1, Resume 0, Resume 1]"

text \<open>
  Two files and no handler running; Shift+C pressed twice, the first handler resumed until
  it awaits the removal of the second output, the second handler resumed until it has
  begun the second record, then the first handler resumed to its end.
\<close>

definition pairPage :: "vfs system" where
  "pairPage =
     \<lparr>page = freshPage [imageFile ''a.png'' [1], imageFile ''b.png'' [2]], activations = []\<rparr>"

definition overtaking :: "event list" where
  "overtaking =
     [KeyDown shiftC, KeyDown shiftC] @ replicate 10 (Resume 0) @ replicate 6 (Resume 1) @
     replicate 2 (Resume 0)"

section \<open>The paths through convertFile\<close>

lemmas async_defs = await_then_def sync_def try_catch_def try_finally_def resolved_def
lemmas prim_defs = ffmpeg_writeFile_def ffmpeg_exec_def ffmpeg_readFile_def ffmpeg_deleteFile_def
  fetchFile_def createObjectURL_def markConverting_def markDone_def markError_def setFileStates_def

lemma convertFile_fulfilled: "fst (convertFile ffmpeg fmt s i w) = Fulfilled ()"
  by (simp add: convertFile_def async_defs split: prod.splits settled.splits)

lemma try_no_content:
  assumes "content (theFile s) = None"
  shows "convertFile_try ffmpeg fmt s i w = (Rejected, markConverting i w)"
  using assms by (simp add: convertFile_try_def async_defs fetchFile_def)

lemma try_write_rejected:
  assumes "content (theFile s) = Some d"
    and "writeFile ffmpeg (inputName i (theFile s)) d (engine w) = (Rejected, e1)"
  shows "convertFile_try ffmpeg fmt s i w =
     (Rejected, (markConverting i w)\<lparr>engine := e1,
        calls := calls w @ [WriteFile (inputName i (theFile s)) d]\<rparr>)"
  using assms by (simp add: convertFile_try_def async_defs prim_defs)

lemma try_exec_rejected:
  assumes "content (theFile s) = Some d"
    and "writeFile ffmpeg (inputName i (theFile s)) d (engine w) = (Fulfilled (), e1)"
    and "exec ffmpeg [''-i'', inputName i (theFile s), outputName i fmt] e1 = (Rejected, e2)"
  shows "convertFile_try ffmpeg fmt s i w =
     (Rejected, (markConverting i w)\<lparr>engine := e2,
        calls := calls w @ [WriteFile (inputName i (theFile s)) d,
          Exec [''-i'', inputName i (theFile s), outputName i fmt]]\<rparr>)"
  using assms by (simp add: convertFile_try_def async_defs prim_defs)

lemma try_read_rejected:
  assumes "content (theFile s) = Some d"
    and "writeFile ffmpeg (inputName i (theFile s)) d (engine w) = (Fulfilled (), e1)"
    and "exec ffmpeg [''-i'', inputName i (theFile s), outputName i fmt] e1 = (Fulfilled (), e2)"
    and "readFile ffmpeg (outputName i fmt) e2 = (Rejected, e3)"
  shows "convertFile_try ffmpeg fmt s i w =
     (Rejected, (markConverting i w)\<lparr>engine := e3,
        calls := calls w @ [WriteFile (inputName i (theFile s)) d,
          Exec [''-i'', inputName i (theFile s), outputName i fmt],
          ReadFile (outputName i fmt)]\<rparr>)"
  using assms by (simp add: convertFile_try_def async_defs prim_defs)

lemma try_read_fulfilled:
  assumes "content (theFile s) = Some d"
    and "writeFile ffmpeg (inputName i (theFile s)) d (engine w) = (Fulfilled (), e1)"
    and "exec ffmpeg [''-i'', inputName i (theFile s), outputName i fmt] e1 = (Fulfilled (), e2)"
    and "readFile ffmpeg (outputName i fmt) e2 = (Fulfilled out, e3)"
    and "deleteFile ffmpeg (outputName i fmt) e3 = (r, e4)"
  shows "convertFile_try ffmpeg fmt s i w =
     (r, (markDone i (''blob:'' @ showNat (length (objectUrls w))) (markConverting i w))\<lparr>engine := e4,
        objectUrls := objectUrls w @ [(''blob:'' @ showNat (length (objectUrls w)),
           \<lparr>blob_parts = out, blob_type = ''image/'' @ formatString fmt\<rparr>)],
        calls := calls w @ [WriteFile (inputName i (theFile s)) d,
          Exec [''-i'', inputName i (theFile s), outputName i fmt],
          ReadFile (outputName i fmt), DeleteFile (outputName i fmt)]\<rparr>)"
  using assms by (simp add: convertFile_try_def async_defs prim_defs Let_def)



lemma FileState_updates:
  "r\<lparr>status := a\<rparr> = \<lparr>theFile = theFile r, status = a, outputUrl = outputUrl r, error = error r\<rparr>"
  "r\<lparr>outputUrl := b\<rparr> = \<lparr>theFile = theFile r, status = status r, outputUrl = b, error = error r\<rparr>"
  "r\<lparr>error := c\<rparr> = \<lparr>theFile = theFile r, status = status r, outputUrl = outputUrl r, error = c\<rparr>"
  by simp_all

lemmas mark_defs = markConverting_def markDone_def markError_def setFileStates_def

lemma convertFile_no_content:
  assumes "content (theFile s) = None"
    and "deleteFile ffmpeg (inputName i (theFile s)) (engine w) = (r, e')"
  shows "convertFile ffmpeg fmt s i w =
     (Fulfilled (), w\<lparr>fileStates := (fileStates w)[i :=
          \<lparr>theFile = theFile (fileStates w ! i), status = Error,
             outputUrl = outputUrl (fileStates w ! i), error = Some ''Conversion failed''\<rparr>],
        engine := e', calls := calls w @ [DeleteFile (inputName i (theFile s))]\<rparr>)"
  using assms(2) unfolding convertFile_def
  by (cases r; cases "i < length (fileStates w)")
    (simp_all add: try_finally_def try_catch_def sync_def resolved_def
      ffmpeg_deleteFile_def try_no_content [OF assms(1)] mark_defs list_update_beyond FileState_updates)

lemma convertFile_write_rejected:
  assumes "content (theFile s) = Some d"
    and "writeFile ffmpeg (inputName i (theFile s)) d (engine w) = (Rejected, e1)"
    and "deleteFile ffmpeg (inputName i (theFile s)) e1 = (r, e')"
  shows "convertFile ffmpeg fmt s i w =
     (Fulfilled (), w\<lparr>fileStates := (fileStates w)[i :=
          \<lparr>theFile = theFile (fileStates w ! i), status = Error,
             outputUrl = outputUrl (fileStates w ! i), error = Some ''Conversion failed''\<rparr>],
        engine := e',
        calls := calls w @ [WriteFile (inputName i (theFile s)) d,
          DeleteFile (inputName i (theFile s))]\<rparr>)"
  using assms(3) unfolding convertFile_def
  by (cases r; cases "i < length (fileStates w)")
    (simp_all add: try_finally_def try_catch_def sync_def resolved_def
      ffmpeg_deleteFile_def try_write_rejected [OF assms(1,2)] mark_defs list_update_beyond FileState_updates)

lemma convertFile_exec_rejected:
  assumes "content (theFile s) = Some d"
    and "writeFile ffmpeg (inputName i (theFile s)) d (engine w) = (Fulfilled (), e1)"
    and "exec ffmpeg [''-i'', inputName i (theFile s), outputName i fmt] e1 = (Rejected, e2)"
    and "deleteFile ffmpeg (inputName i (theFile s)) e2 = (r, e')"
  shows "convertFile ffmpeg fmt s i w =
     (Fulfilled (), w\<lparr>fileStates := (fileStates w)[i :=
          \<lparr>theFile = theFile (fileStates w ! i), status = Error,
             outputUrl = outputUrl (fileStates w ! i), error = Some ''Conversion failed''\<rparr>],
        engine := e',
        calls := calls w @ [WriteFile (inputName i (theFile s)) d,
          Exec [''-i'', inputName i (theFile s), outputName i fmt],
          DeleteFile (inputName i (theFile s))]\<rparr>)"
  using assms(4) unfolding convertFile_def
  by (cases r; cases "i < length (fileStates w)")
    (simp_all add: try_finally_def try_catch_def sync_def resolved_def
      ffmpeg_deleteFile_def try_exec_rejected [OF assms(1,2,3)] mark_defs list_update_beyond FileState_updates)

lemma convertFile_read_rejected:
  assumes "content (theFile s) = Some d"
    and "writeFile ffmpeg (inputName i (theFile s)) d (engine w) = (Fulfilled (), e1)"
    and "exec ffmpeg [''-i'', inputName i (theFile s), outputName i fmt] e1 = (Fulfilled (), e2)"
    and "readFile ffmpeg (outputName i fmt) e2 = (Rejected, e3)"
    and "deleteFile ffmpeg (inputName i (theFile s)) e3 = (r, e')"
  shows "convertFile ffmpeg fmt s i w =
     (Fulfilled (), w\<lparr>fileStates := (fileStates w)[i :=
          \<lparr>theFile = theFile (fileStates w ! i), status = Error,
             outputUrl = outputUrl (fileStates w ! i), error = Some ''Conversion failed''\<rparr>],
        engine := e',
        calls := calls w @ [WriteFile (inputName i (theFile s)) d,
          Exec [''-i'', inputName i (theFile s), outputName i fmt],
          ReadFile (outputName i fmt),
          DeleteFile (inputName i (theFile s))]\<rparr>)"
  using assms(5) unfolding convertFile_def
  by (cases r; cases "i < length (fileStates w)")
    (simp_all add: try_finally_def try_catch_def sync_def resolved_def
      ffmpeg_deleteFile_def try_read_rejected [OF assms(1,2,3,4)] mark_defs list_update_beyond FileState_updates)

lemma convertFile_cleanup_rejected:
  assumes "content (theFile s) = Some d"
    and "writeFile ffmpeg (inputName i (theFile s)) d (engine w) = (Fulfilled (), e1)"
    and "exec ffmpeg [''-i'', inputName i (theFile s), outputName i fmt] e1 = (Fulfilled (), e2)"
    and "readFile ffmpeg (outputName i fmt) e2 = (Fulfilled out, e3)"
    and "deleteFile ffmpeg (outputName i fmt) e3 = (Rejected, e4)"
    and "deleteFile ffmpeg (inputName i (theFile s)) e4 = (r, e')"
  shows "convertFile ffmpeg fmt s i w =
     (Fulfilled (), w\<lparr>objectUrls := objectUrls w @
          [(''blob:'' @ showNat (length (objectUrls w)),
            \<lparr>blob_parts = out, blob_type = ''image/'' @ formatString fmt\<rparr>)],
        fileStates := (fileStates w)[i :=
          \<lparr>theFile = theFile (fileStates w ! i), status = Error,
             outputUrl = Some (''blob:'' @ showNat (length (objectUrls w))),
             error = Some ''Conversion failed''\<rparr>],
        engine := e',
        calls := calls w @ [WriteFile (inputName i (theFile s)) d,
          Exec [''-i'', inputName i (theFile s), outputName i fmt],
          ReadFile (outputName i fmt), DeleteFile (outputName i fmt),
          DeleteFile (inputName i (theFile s))]\<rparr>)"
  using assms(6) unfolding convertFile_def
  by (cases r; cases "i < length (fileStates w)")
    (simp_all add: try_finally_def try_catch_def sync_def resolved_def
      ffmpeg_deleteFile_def try_read_fulfilled [OF assms(1,2,3,4,5)] mark_defs list_update_beyond FileState_updates)

lemma convertFile_succeeded:
  assumes "content (theFile s) = Some d"
    and "writeFile ffmpeg (inputName i (theFile s)) d (engine w) = (Fulfilled (), e1)"
    and "exec ffmpeg [''-i'', inputName i (theFile s), outputName i fmt] e1 = (Fulfilled (), e2)"
    and "readFile ffmpeg (outputName i fmt) e2 = (Fulfilled out, e3)"
    and "deleteFile ffmpeg (outputName i fmt) e3 = (Fulfilled (), e4)"
    and "deleteFile ffmpeg (inputName i (theFile s)) e4 = (r, e')"
  shows "convertFile ffmpeg fmt s i w =
     (Fulfilled (), w\<lparr>objectUrls := objectUrls w @
          [(''blob:'' @ showNat (length (objectUrls w)),
            \<lparr>blob_parts = out, blob_type = ''image/'' @ formatString fmt\<rparr>)],
        fileStates := (fileStates w)[i :=
          \<lparr>theFile = theFile (fileStates w ! i), status = Done,
             outputUrl = Some (''blob:'' @ showNat (length (objectUrls w))),
             error = None\<rparr>],
        engine := e',
        calls := calls w @ [WriteFile (inputName i (theFile s)) d,
          Exec [''-i'', inputName i (theFile s), outputName i fmt],
          ReadFile (outputName i fmt), DeleteFile (outputName i fmt),
          DeleteFile (inputName i (theFile s))]\<rparr>)"
  using assms(6) unfolding convertFile_def
  by (cases r; cases "i < length (fileStates w)")
    (simp_all add: try_finally_def try_catch_def sync_def resolved_def
      ffmpeg_deleteFile_def try_read_fulfilled [OF assms(1,2,3,4,5)] mark_defs list_update_beyond FileState_updates)


lemma settled_pair_cases:
  obtains (rejected) e where "p = (Rejected, e)" | (fulfilled) a e where "p = (Fulfilled a, e)"
  by (cases p; cases "fst p") auto

lemma convertFile_cases:
  fixes ffmpeg :: "'e FFmpeg"
  obtains
    (no_content) r e' where
      "content (theFile s) = None"
      "deleteFile ffmpeg (inputName i (theFile s)) (engine w) = (r, e')"
  | (write_rejected) d e1 r e' where
      "content (theFile s) = Some d"
      "writeFile ffmpeg (inputName i (theFile s)) d (engine w) = (Rejected, e1)"
      "deleteFile ffmpeg (inputName i (theFile s)) e1 = (r, e')"
  | (exec_rejected) d e1 e2 r e' where
      "content (theFile s) = Some d"
      "writeFile ffmpeg (inputName i (theFile s)) d (engine w) = (Fulfilled (), e1)"
      "exec ffmpeg [''-i'', inputName i (theFile s), outputName i fmt] e1 = (Rejected, e2)"
      "deleteFile ffmpeg (inputName i (theFile s)) e2 = (r, e')"
  | (read_rejected) d e1 e2 e3 r e' where
      "content (theFile s) = Some d"
      "writeFile ffmpeg (inputName i (theFile s)) d (engine w) = (Fulfilled (), e1)"
      "exec ffmpeg [''-i'', inputName i (theFile s), outputName i fmt] e1 = (Fulfilled (), e2)"
      "readFile ffmpeg (outputName i fmt) e2 = (Rejected, e3)"
      "deleteFile ffmpeg (inputName i (theFile s)) e3 = (r, e')"
  | (cleanup_rejected) d e1 e2 out e3 e4 r e' where
      "content (theFile s) = Some d"
      "writeFile ffmpeg (inputName i (theFile s)) d (engine w) = (Fulfilled (), e1)"
      "exec ffmpeg [''-i'', inputName i (theFile s), outputName i fmt] e1 = (Fulfilled (), e2)"
      "readFile ffmpeg (outputName i fmt) e2 = (Fulfilled out, e3)"
      "deleteFile ffmpeg (outputName i fmt) e3 = (Rejected, e4)"
      "deleteFile ffmpeg (inputName i (theFile s)) e4 = (r, e')"
  | (succeeded) d e1 e2 out e3 e4 r e' where
      "content (theFile s) = Some d"
      "writeFile ffmpeg (inputName i (theFile s)) d (engine w) = (Fulfilled (), e1)"
      "exec ffmpeg [''-i'', inputName i (theFile s), outputName i fmt] e1 = (Fulfilled (), e2)"
      "readFile ffmpeg (outputName i fmt) e2 = (Fulfilled out, e3)"
      "deleteFile ffmpeg (outputName i fmt) e3 = (Fulfilled (), e4)"
      "deleteFile ffmpeg (inputName i (theFile s)) e4 = (r, e')"
proof (cases "content (theFile s)")
  case None
  then show ?thesis
    using no_content by (cases "deleteFile ffmpeg (inputName i (theFile s)) (engine w)") blast
next
  case (Some d)
  show ?thesis
  proof (cases "writeFile ffmpeg (inputName i (theFile s)) d (engine w)" rule: settled_pair_cases)
    case (rejected e1)
    with Some show ?thesis
      using write_rejected by (cases "deleteFile ffmpeg (inputName i (theFile s)) e1") blast
  next
    case (fulfilled u1 e1)
    then have w: "writeFile ffmpeg (inputName i (theFile s)) d (engine w) = (Fulfilled (), e1)"
      by simp
    show ?thesis
    proof (cases "exec ffmpeg [''-i'', inputName i (theFile s), outputName i fmt] e1"
        rule: settled_pair_cases)
      case (rejected e2)
      with Some w show ?thesis
        using exec_rejected by (cases "deleteFile ffmpeg (inputName i (theFile s)) e2") blast
    next
      case (fulfilled u2 e2)
      then have x: "exec ffmpeg [''-i'', inputName i (theFile s), outputName i fmt] e1 =
          (Fulfilled (), e2)"
        by simp
      show ?thesis
      proof (cases "readFile ffmpeg (outputName i fmt) e2" rule: settled_pair_cases)
        case (rejected e3)
        with Some w x show ?thesis
          using read_rejected by (cases "deleteFile ffmpeg (inputName i (theFile s)) e3") blast
      next
        case (fulfilled out e3)
        note rd = this
        show ?thesis
        proof (cases "deleteFile ffmpeg (outputName i fmt) e3" rule: settled_pair_cases)
          case (rejected e4)
          with Some w x rd show ?thesis
            using cleanup_rejected
            by (cases "deleteFile ffmpeg (inputName i (theFile s)) e4") blast
        next
          case (fulfilled u4 e4)
          then have dl: "deleteFile ffmpeg (outputName i fmt) e3 = (Fulfilled (), e4)"
            by simp
          with Some w x rd show ?thesis
            using succeeded
            by (cases "deleteFile ffmpeg (inputName i (theFile s)) e4") blast
        qed
      qed
    qed
  qed
qed

lemma convertFile_cells:
  "isConverting (snd (convertFile ffmpeg fmt s i w)) = isConverting w \<and>
   targetFormat (snd (convertFile ffmpeg fmt s i w)) = targetFormat w"
proof (cases rule: convertFile_cases [where s = s and ffmpeg = ffmpeg and i = i and w = w and fmt = fmt])
  case (no_content r e')
  then show ?thesis
    by (simp add: convertFile_no_content [OF no_content] failingStep_def)
next
  case (write_rejected d e1 r e')
  then show ?thesis
    by (simp add: convertFile_write_rejected [OF write_rejected] failingStep_def)
next
  case (exec_rejected d e1 e2 r e')
  then show ?thesis
    by (simp add: convertFile_exec_rejected [OF exec_rejected] failingStep_def)
next
  case (read_rejected d e1 e2 e3 r e')
  then show ?thesis
    by (simp add: convertFile_read_rejected [OF read_rejected] failingStep_def)
next
  case (cleanup_rejected d e1 e2 out e3 e4 r e')
  then show ?thesis
    by (simp add: convertFile_cleanup_rejected [OF cleanup_rejected] failingStep_def)
next
  case (succeeded d e1 e2 out e3 e4 r e')
  then show ?thesis
    by (simp add: convertFile_succeeded [OF succeeded] failingStep_def)
qed

lemma convertFile_records:
  "fileStates (snd (convertFile ffmpeg fmt s i w)) =
     (fileStates w)[i :=
        \<lparr>theFile = theFile (fileStates w ! i),
         status = (case failingStep ffmpeg fmt s i (engine w) of None \<Rightarrow> Done | Some _ \<Rightarrow> Error),
         outputUrl =
           (if failingStep ffmpeg fmt s i (engine w) \<in> {None, Some OutputRemoval}
            then Some (''blob:'' @ showNat (length (objectUrls w)))
            else outputUrl (fileStates w ! i)),
         error = (case failingStep ffmpeg fmt s i (engine w) of
                    None \<Rightarrow> None | Some _ \<Rightarrow> Some ''Conversion failed'')\<rparr>]"
proof (cases rule: convertFile_cases [where s = s and ffmpeg = ffmpeg and i = i and w = w and fmt = fmt])
  case (no_content r e')
  then show ?thesis
    by (simp add: convertFile_no_content [OF no_content] failingStep_def)
next
  case (write_rejected d e1 r e')
  then show ?thesis
    by (simp add: convertFile_write_rejected [OF write_rejected] failingStep_def)
next
  case (exec_rejected d e1 e2 r e')
  then show ?thesis
    by (simp add: convertFile_exec_rejected [OF exec_rejected] failingStep_def)
next
  case (read_rejected d e1 e2 e3 r e')
  then show ?thesis
    by (simp add: convertFile_read_rejected [OF read_rejected] failingStep_def)
next
  case (cleanup_rejected d e1 e2 out e3 e4 r e')
  then show ?thesis
    by (simp add: convertFile_cleanup_rejected [OF cleanup_rejected] failingStep_def)
next
  case (succeeded d e1 e2 out e3 e4 r e')
  then show ?thesis
    by (simp add: convertFile_succeeded [OF succeeded] failingStep_def)
qed

lemma convertFile_calls:
  "\<exists>tr. calls (snd (convertFile ffmpeg fmt s i w)) =
          calls w @ tr @ [DeleteFile (inputName i (theFile s))] \<and>
        (DeleteFile (outputName i fmt) \<in> set tr) =
          (failingStep ffmpeg fmt s i (engine w) \<in> {None, Some OutputRemoval})"
proof (cases rule: convertFile_cases [where s = s and ffmpeg = ffmpeg and i = i and w = w and fmt = fmt])
  case (no_content r e')
  then show ?thesis
    by (simp add: convertFile_no_content [OF no_content] failingStep_def)
next
  case (write_rejected d e1 r e')
  then show ?thesis
    by (simp add: convertFile_write_rejected [OF write_rejected] failingStep_def)
next
  case (exec_rejected d e1 e2 r e')
  then show ?thesis
    by (simp add: convertFile_exec_rejected [OF exec_rejected] failingStep_def)
next
  case (read_rejected d e1 e2 e3 r e')
  then show ?thesis
    by (simp add: convertFile_read_rejected [OF read_rejected] failingStep_def)
next
  case (cleanup_rejected d e1 e2 out e3 e4 r e')
  then show ?thesis
    by (simp add: convertFile_cleanup_rejected [OF cleanup_rejected] failingStep_def)
next
  case (succeeded d e1 e2 out e3 e4 r e')
  then show ?thesis
    by (simp add: convertFile_succeeded [OF succeeded] failingStep_def)
qed

section \<open>The loop of handleConvertAll\<close>

lemma convertFile_pair:
  "convertFile ffmpeg fmt s i w = (Fulfilled (), snd (convertFile ffmpeg fmt s i w))"
  using convertFile_fulfilled [of ffmpeg fmt s i w] by (simp add: prod_eq_iff)

lemma convertFile_length:
  "length (fileStates (snd (convertFile ffmpeg fmt s i w))) = length (fileStates w)"
  by (simp add: convertFile_records)

lemma convertFile_other:
  "j \<noteq> i \<Longrightarrow> fileStates (snd (convertFile ffmpeg fmt s i w)) ! j = fileStates w ! j"
  by (simp add: convertFile_records)

lemma convertLoop_Cons:
  "convertLoop ffmpeg fmt ((i, s) # rest) w =
     convertLoop ffmpeg fmt rest
       (if status s \<noteq> Done then snd (convertFile ffmpeg fmt s i w) else w)"
proof (cases "status s = Done")
  case True
  then show ?thesis by simp
next
  case False
  then show ?thesis
    by (simp add: await_then_def) (subst convertFile_pair, simp)
qed

lemma convertLoop_fulfilled: "fst (convertLoop ffmpeg fmt ps w) = Fulfilled ()"
proof (induction ps arbitrary: w)
  case Nil
  show ?case by (simp add: resolved_def)
next
  case (Cons p ps)
  obtain i s where p: "p = (i, s)" by (cases p)
  show ?case unfolding p convertLoop_Cons by (rule Cons.IH)
qed

lemma convertLoop_invariant:
  assumes step: "\<And>j s' w. (j, s') \<in> set ps \<Longrightarrow> status s' \<noteq> Done \<Longrightarrow> I w \<Longrightarrow>
      I (snd (convertFile ffmpeg fmt s' j w))"
    and start: "I w"
  shows "I (snd (convertLoop ffmpeg fmt ps w))"
  using assms
proof (induction ps arbitrary: w)
  case Nil
  then show ?case by (simp add: resolved_def)
next
  case (Cons p ps)
  obtain i s where p: "p = (i, s)" by (cases p)
  have "I (if status s \<noteq> Done then snd (convertFile ffmpeg fmt s i w) else w)"
    using Cons.prems by (simp add: p)
  moreover have "\<And>j s' w. (j, s') \<in> set ps \<Longrightarrow> status s' \<noteq> Done \<Longrightarrow> I w \<Longrightarrow>
      I (snd (convertFile ffmpeg fmt s' j w))"
    using Cons.prems(1) by simp
  ultimately show ?case
    unfolding p convertLoop_Cons by (intro Cons.IH)
qed

lemma convertLoop_establishes:
  assumes inv: "\<And>j s' w. I w \<Longrightarrow> I (snd (convertFile ffmpeg fmt s' j w))"
    and est: "\<And>w. I w \<Longrightarrow> Q (snd (convertFile ffmpeg fmt s i w))"
    and stab: "\<And>j s' w. I w \<Longrightarrow> Q w \<Longrightarrow> j \<noteq> i \<Longrightarrow> Q (snd (convertFile ffmpeg fmt s' j w))"
    and start: "I w"
    and mem: "(i, s) \<in> set ps"
    and pending: "status s \<noteq> Done"
    and dist: "distinct (map fst ps)"
  shows "Q (snd (convertLoop ffmpeg fmt ps w))"
  using start mem dist
proof (induction ps arbitrary: w)
  case Nil
  then show ?case by simp
next
  case (Cons p ps)
  obtain j s' where p: "p = (j, s')" by (cases p)
  show ?case
  proof (cases "p = (i, s)")
    case True
    then have here: "j = i" "s' = s" using p by simp_all
    have fresh: "\<And>k t. (k, t) \<in> set ps \<Longrightarrow> k \<noteq> i"
      using Cons.prems(3) True by (auto simp: image_iff)
    have "I (snd (convertFile ffmpeg fmt s i w)) \<and> Q (snd (convertFile ffmpeg fmt s i w))"
      using inv est Cons.prems(1) by simp
    then have "I (snd (convertLoop ffmpeg fmt ps (snd (convertFile ffmpeg fmt s i w)))) \<and>
        Q (snd (convertLoop ffmpeg fmt ps (snd (convertFile ffmpeg fmt s i w))))"
      by (rule convertLoop_invariant [where I = "\<lambda>w. I w \<and> Q w", rotated])
        (use inv stab fresh in blast)
    then show ?thesis
      unfolding p convertLoop_Cons using pending here by simp
  next
    case False
    then have rest: "(i, s) \<in> set ps" using Cons.prems(2) by simp
    have "I (if status s' \<noteq> Done then snd (convertFile ffmpeg fmt s' j w) else w)"
      using inv Cons.prems(1) by simp
    then show ?thesis
      unfolding p convertLoop_Cons using rest Cons.prems(3) by (intro Cons.IH) simp_all
  qed
qed

lemma handleConvertAll_eq:
  "handleConvertAll ffmpeg w =
     (Fulfilled (),
      setIsConverting False
        (snd (convertLoop ffmpeg (targetFormat w) (enumerate 0 (fileStates w))
           (setIsConverting True w))))"
proof -
  obtain r w1 where run: "convertLoop ffmpeg (targetFormat w) (enumerate 0 (fileStates w))
      (setIsConverting True w) = (r, w1)"
    by (cases "convertLoop ffmpeg (targetFormat w) (enumerate 0 (fileStates w))
      (setIsConverting True w)")
  have "r = Fulfilled ()"
    using convertLoop_fulfilled [of ffmpeg "targetFormat w" "enumerate 0 (fileStates w)"
        "setIsConverting True w"]
    by (simp add: run)
  then show ?thesis
    by (simp add: handleConvertAll_def await_then_def sync_def run)
qed

lemma convertLoop_fold:
  "convertLoop ffmpeg fmt ps w =
     (Fulfilled (),
      foldl (\<lambda>v p. snd (convertFile ffmpeg fmt (snd p) (fst p) v)) w
        (filter (\<lambda>p. status (snd p) \<noteq> Done) ps))"
proof (induction ps arbitrary: w)
  case Nil
  show ?case by (simp add: resolved_def)
next
  case (Cons p ps)
  obtain i s where p: "p = (i, s)" by (cases p)
  show ?case unfolding p convertLoop_Cons by (simp add: Cons.IH)
qed

lemma handleConvertAll_fold:
  "handleConvertAll ffmpeg w =
     (Fulfilled (),
      setIsConverting False
        (foldl (\<lambda>v p. snd (convertFile ffmpeg (targetFormat w) (snd p) (fst p) v))
           (setIsConverting True w)
           (filter (\<lambda>p. status (snd p) \<noteq> Done) (enumerate 0 (fileStates w)))))"
  by (simp add: handleConvertAll_eq convertLoop_fold)

lemma in_enumerate_0:
  "((i, s) \<in> set (enumerate 0 xs)) = (i < length xs \<and> s = xs ! i)"
  by (auto simp: in_set_enumerate_eq)

lemma distinct_enumerate_fst: "distinct (map fst (enumerate n xs))"
  by simp

section \<open>What a batch pass does to each record\<close>

lemma fileStates_setIsConverting [simp]:
  "fileStates (setIsConverting b w) = fileStates w"
  "targetFormat (setIsConverting b w) = targetFormat w"
  "calls (setIsConverting b w) = calls w"
  "engine (setIsConverting b w) = engine w"
  "objectUrls (setIsConverting b w) = objectUrls w"
  "isConverting (setIsConverting b w) = b"
  by (simp_all add: setIsConverting_def)

lemma handleConvertAll_snd:
  "snd (handleConvertAll ffmpeg w) =
     setIsConverting False
       (snd (convertLoop ffmpeg (targetFormat w) (enumerate 0 (fileStates w))
          (setIsConverting True w)))"
  by (simp add: handleConvertAll_eq)

lemma handleConvertAll_length:
  "length (fileStates (snd (handleConvertAll ffmpeg w))) = length (fileStates w)"
proof -
  have "length (fileStates (snd (convertLoop ffmpeg (targetFormat w) (enumerate 0 (fileStates w))
      (setIsConverting True w)))) = length (fileStates w)"
    by (rule convertLoop_invariant [where I = "\<lambda>v. length (fileStates v) = length (fileStates w)"])
      (simp_all add: convertFile_length)
  then show ?thesis by (simp add: handleConvertAll_snd)
qed

lemma handleConvertAll_skips:
  assumes "i < length (fileStates w)" and "status (fileStates w ! i) = Done"
  shows "fileStates (snd (handleConvertAll ffmpeg w)) ! i = fileStates w ! i"
proof -
  have "fileStates (snd (convertLoop ffmpeg (targetFormat w) (enumerate 0 (fileStates w))
      (setIsConverting True w))) ! i = fileStates w ! i"
  proof (rule convertLoop_invariant [where I = "\<lambda>v. fileStates v ! i = fileStates w ! i"])
    fix j s' and v :: "'a world"
    assume "(j, s') \<in> set (enumerate 0 (fileStates w))" and "status s' \<noteq> Done"
      and "fileStates v ! i = fileStates w ! i"
    moreover from this assms have "j \<noteq> i" by (auto simp: in_enumerate_0)
    ultimately show "fileStates (snd (convertFile ffmpeg (targetFormat w) s' j v)) ! i =
        fileStates w ! i"
      by (simp add: convertFile_other)
  qed simp
  then show ?thesis by (simp add: handleConvertAll_snd)
qed

lemma handleConvertAll_attempts:
  assumes inv: "\<And>j s' v. I v \<Longrightarrow> I (snd (convertFile ffmpeg (targetFormat w) s' j v))"
    and est: "\<And>v. I v \<Longrightarrow> Q (snd (convertFile ffmpeg (targetFormat w) (fileStates w ! i) i v))"
    and stab: "\<And>j s' v. I v \<Longrightarrow> Q v \<Longrightarrow> j \<noteq> i \<Longrightarrow>
        Q (snd (convertFile ffmpeg (targetFormat w) s' j v))"
    and fin: "\<And>v. Q v \<Longrightarrow> Q (setIsConverting False v)"
    and start: "I (setIsConverting True w)"
    and i: "i < length (fileStates w)" "status (fileStates w ! i) \<noteq> Done"
  shows "Q (snd (handleConvertAll ffmpeg w))"
proof -
  have "Q (snd (convertLoop ffmpeg (targetFormat w) (enumerate 0 (fileStates w))
      (setIsConverting True w)))"
    by (rule convertLoop_establishes [where I = I and i = i and s = "fileStates w ! i"])
      (use assms in \<open>simp_all add: in_enumerate_0\<close>)
  then show ?thesis by (simp add: handleConvertAll_snd fin)
qed

lemma convertFile_status:
  assumes "i < length (fileStates w)"
  shows "status (fileStates (snd (convertFile ffmpeg fmt s i w)) ! i) =
     (case failingStep ffmpeg fmt s i (engine w) of None \<Rightarrow> Done | Some _ \<Rightarrow> Error)"
  using assms by (simp add: convertFile_records)

lemma handleConvertAll_settles:
  assumes i: "i < length (fileStates w)"
  shows "status (fileStates (snd (handleConvertAll ffmpeg w)) ! i) = Done \<or>
    status (fileStates (snd (handleConvertAll ffmpeg w)) ! i) = Error"
proof (cases "status (fileStates w ! i) = Done")
  case True
  then show ?thesis using i by (simp add: handleConvertAll_skips)
next
  case False
  show ?thesis
  proof (rule handleConvertAll_attempts
      [where I = "\<lambda>v. i < length (fileStates v)"
        and Q = "\<lambda>v. status (fileStates v ! i) = Done \<or> status (fileStates v ! i) = Error"
        and i = i])
    fix v :: "'a world"
    assume "i < length (fileStates v)"
    then show "status (fileStates (snd (convertFile ffmpeg (targetFormat w) (fileStates w ! i) i v)) ! i) = Done \<or>
        status (fileStates (snd (convertFile ffmpeg (targetFormat w) (fileStates w ! i) i v)) ! i) = Error"
      by (simp add: convertFile_status split: option.splits)
  qed (use i False in \<open>simp_all add: convertFile_length convertFile_other\<close>)
qed

lemma handleConvertAll_statuses:
  assumes "s \<in> set (fileStates (snd (handleConvertAll ffmpeg w)))"
  shows "status s = Done \<or> status s = Error"
proof -
  from assms obtain i where "i < length (fileStates w)"
    and "s = fileStates (snd (handleConvertAll ffmpeg w)) ! i"
    by (auto simp: in_set_conv_nth handleConvertAll_length)
  then show ?thesis
    using handleConvertAll_settles by blast
qed

lemma convertFile_calls_grow:
  "length (calls w) \<le> length (calls (snd (convertFile ffmpeg fmt s i w)))"
  using convertFile_calls [of ffmpeg fmt s i w] by auto

lemma convertFile_calls_keep:
  assumes "c \<in> set (drop n (calls w))"
  shows "c \<in> set (drop n (calls (snd (convertFile ffmpeg fmt s i w))))"
  using convertFile_calls [of ffmpeg fmt s i w] assms by auto

lemma convertFile_calls_cleanup:
  assumes "n \<le> length (calls w)"
  shows "DeleteFile (inputName i (theFile s)) \<in>
    set (drop n (calls (snd (convertFile ffmpeg fmt s i w))))"
  using convertFile_calls [of ffmpeg fmt s i w] assms by auto

lemma handleConvertAll_cleanup_call:
  assumes i: "i < length (fileStates w)" "status (fileStates w ! i) \<noteq> Done"
  shows "DeleteFile (inputName i (theFile (fileStates w ! i))) \<in>
    set (drop (length (calls w)) (calls (snd (handleConvertAll ffmpeg w))))"
proof (rule handleConvertAll_attempts
    [where I = "\<lambda>v. length (calls w) \<le> length (calls v)"
      and Q = "\<lambda>v. DeleteFile (inputName i (theFile (fileStates w ! i))) \<in>
        set (drop (length (calls w)) (calls v))"
      and i = i])
  fix j s' and v :: "'a world"
  assume "length (calls w) \<le> length (calls v)"
  then show "length (calls w) \<le> length (calls (snd (convertFile ffmpeg (targetFormat w) s' j v)))"
    using convertFile_calls_grow [of v ffmpeg "targetFormat w" s' j] by simp
qed (use i in \<open>simp_all add: convertFile_calls_keep convertFile_calls_cleanup\<close>)

lemma convertFile_error_message:
  assumes "i < length (fileStates w)"
    and "status (fileStates (snd (convertFile ffmpeg fmt s i w)) ! i) = Error"
  shows "error (fileStates (snd (convertFile ffmpeg fmt s i w)) ! i) = Some ''Conversion failed''"
  using assms by (simp add: convertFile_records split: option.splits)

lemma handleConvertAll_outcome:
  assumes i: "i < length (fileStates w)" "status (fileStates w ! i) \<noteq> Done"
  shows "(status (fileStates (snd (handleConvertAll ffmpeg w)) ! i) = Error \<longrightarrow>
      error (fileStates (snd (handleConvertAll ffmpeg w)) ! i) = Some ''Conversion failed'') \<and>
    ((\<forall>e. failingStep ffmpeg (targetFormat w) (fileStates w ! i) i e = None) \<longrightarrow>
      status (fileStates (snd (handleConvertAll ffmpeg w)) ! i) = Done)"
proof (rule handleConvertAll_attempts
    [where I = "\<lambda>v. i < length (fileStates v)"
      and Q = "\<lambda>v. (status (fileStates v ! i) = Error \<longrightarrow>
          error (fileStates v ! i) = Some ''Conversion failed'') \<and>
        ((\<forall>e. failingStep ffmpeg (targetFormat w) (fileStates w ! i) i e = None) \<longrightarrow>
          status (fileStates v ! i) = Done)"
      and i = i])
  fix v :: "'a world"
  assume "i < length (fileStates v)"
  then show "(status (fileStates (snd (convertFile ffmpeg (targetFormat w) (fileStates w ! i) i v)) ! i) = Error \<longrightarrow>
      error (fileStates (snd (convertFile ffmpeg (targetFormat w) (fileStates w ! i) i v)) ! i) =
        Some ''Conversion failed'') \<and>
    ((\<forall>e. failingStep ffmpeg (targetFormat w) (fileStates w ! i) i e = None) \<longrightarrow>
      status (fileStates (snd (convertFile ffmpeg (targetFormat w) (fileStates w ! i) i v)) ! i) = Done)"
    by (simp add: convertFile_records split: option.splits)
qed (use i in \<open>simp_all add: convertFile_length convertFile_other\<close>)

lemma convertLoop_all_done:
  assumes "\<forall>p \<in> set ps. status (snd p) = Done"
  shows "convertLoop ffmpeg fmt ps w = (Fulfilled (), w)"
  using assms by (induction ps) (auto simp: resolved_def)

lemma handleConvertAll_all_done:
  assumes "\<forall>s \<in> set (fileStates w). status s = Done"
  shows "handleConvertAll ffmpeg w = (Fulfilled (), setIsConverting False w)"
proof -
  have "\<forall>p \<in> set (enumerate 0 (fileStates w)). status (snd p) = Done"
    using assms by (auto simp: in_set_enumerate_eq)
  then show ?thesis
    by (simp add: handleConvertAll_eq convertLoop_all_done setIsConverting_def)
qed

lemma map_of_vfsWrite: "map_of (vfsWrite p d fs) p = Some d"
  by (simp add: vfsWrite_def)

lemma selective_serves:
  assumes "content (theFile s) = Some d" and "take 1 d \<noteq> [0]"
  shows "failingStep (virtualEngine selective) fmt s i e = None"
  using assms
  by (simp add: failingStep_def virtualEngine_def vfsExec_def vfsRead_def vfsRemove_def
      map_of_vfsWrite selective_def)

lemma convertFile_calls_write:
  assumes d: "content (theFile s) = Some d" and n: "n \<le> length (calls w)"
  shows "WriteFile (inputName i (theFile s)) d \<in>
    set (drop n (calls (snd (convertFile ffmpeg fmt s i w))))"
proof (cases rule: convertFile_cases [where s = s and ffmpeg = ffmpeg and i = i and w = w and fmt = fmt])
  case (no_content r e')
  then show ?thesis using d by simp
next
  case (write_rejected d' e1 r e')
  then show ?thesis
    using d n by (simp add: convertFile_write_rejected [OF write_rejected])
next
  case (exec_rejected d' e1 e2 r e')
  then show ?thesis
    using d n by (simp add: convertFile_exec_rejected [OF exec_rejected])
next
  case (read_rejected d' e1 e2 e3 r e')
  then show ?thesis
    using d n by (simp add: convertFile_read_rejected [OF read_rejected])
next
  case (cleanup_rejected d' e1 e2 out e3 e4 r e')
  then show ?thesis
    using d n by (simp add: convertFile_cleanup_rejected [OF cleanup_rejected])
next
  case (succeeded d' e1 e2 out e3 e4 r e')
  then show ?thesis
    using d n by (simp add: convertFile_succeeded [OF succeeded])
qed

lemma handleConvertAll_write_call:
  assumes i: "i < length (fileStates w)" "status (fileStates w ! i) \<noteq> Done"
    and d: "content (theFile (fileStates w ! i)) = Some d"
  shows "WriteFile (inputName i (theFile (fileStates w ! i))) d \<in>
    set (drop (length (calls w)) (calls (snd (handleConvertAll ffmpeg w))))"
proof (rule handleConvertAll_attempts
    [where I = "\<lambda>v. length (calls w) \<le> length (calls v)"
      and Q = "\<lambda>v. WriteFile (inputName i (theFile (fileStates w ! i))) d \<in>
        set (drop (length (calls w)) (calls v))"
      and i = i])
  fix j s' and v :: "'a world"
  assume "length (calls w) \<le> length (calls v)"
  then show "length (calls w) \<le> length (calls (snd (convertFile ffmpeg (targetFormat w) s' j v)))"
    using convertFile_calls_grow [of v ffmpeg "targetFormat w" s' j] by simp
qed (use i d in \<open>simp_all add: convertFile_calls_keep convertFile_calls_write\<close>)

lemma handleConvertAll_converts:
  assumes i: "i < length (fileStates w)" "status (fileStates w ! i) \<noteq> Done"
    and ok: "\<forall>e. failingStep ffmpeg (targetFormat w) (fileStates w ! i) i e = None"
  shows "status (fileStates (snd (handleConvertAll ffmpeg w)) ! i) = Done \<and>
    outputUrl (fileStates (snd (handleConvertAll ffmpeg w)) ! i) \<noteq> None \<and>
    error (fileStates (snd (handleConvertAll ffmpeg w)) ! i) = None"
proof (rule handleConvertAll_attempts
    [where I = "\<lambda>v. i < length (fileStates v)"
      and Q = "\<lambda>v. status (fileStates v ! i) = Done \<and> outputUrl (fileStates v ! i) \<noteq> None \<and>
        error (fileStates v ! i) = None"
      and i = i])
  fix v :: "'a world"
  assume "i < length (fileStates v)"
  then show "status (fileStates (snd (convertFile ffmpeg (targetFormat w) (fileStates w ! i) i v)) ! i) = Done \<and>
      outputUrl (fileStates (snd (convertFile ffmpeg (targetFormat w) (fileStates w ! i) i v)) ! i) \<noteq> None \<and>
      error (fileStates (snd (convertFile ffmpeg (targetFormat w) (fileStates w ! i) i v)) ! i) = None"
    using ok by (simp add: convertFile_records)
qed (use i in \<open>simp_all add: convertFile_length convertFile_other\<close>)

lemma healthy_serves:
  assumes "content (theFile s) = Some d"
  shows "failingStep (virtualEngine healthy) fmt s i e = None"
  using assms
  by (simp add: failingStep_def virtualEngine_def vfsExec_def vfsRead_def vfsRemove_def
      map_of_vfsWrite healthy_def)

section \<open>The engine's files\<close>

lemma failing_OutputRemoval_chain:
  assumes "failingStep ffmpeg fmt s i e0 = Some OutputRemoval"
  obtains d e1 e2 out e3 e4 where
    "content (theFile s) = Some d"
    "writeFile ffmpeg (inputName i (theFile s)) d e0 = (Fulfilled (), e1)"
    "exec ffmpeg [''-i'', inputName i (theFile s), outputName i fmt] e1 = (Fulfilled (), e2)"
    "readFile ffmpeg (outputName i fmt) e2 = (Fulfilled out, e3)"
    "deleteFile ffmpeg (outputName i fmt) e3 = (Rejected, e4)"
  using assms
  by (auto simp: failingStep_def split: option.splits prod.splits settled.splits)

lemma formatString_inj: "formatString a = formatString b \<Longrightarrow> a = b"
  by (cases a; cases b) simp_all

lemma names_differ: "inputName i f \<noteq> outputName j fmt"
  by (simp add: inputName_def outputName_def)

lemma convertFile_engine:
  assumes c: "engineContract ffmpeg vfiles"
  shows "vfiles (engine (snd (convertFile ffmpeg fmt s i w))) \<subseteq>
      vfiles (engine w) - {inputName i (theFile s)} \<and>
    (failingStep ffmpeg fmt s i (engine w) \<in> {None, Some OutputRemoval} \<longrightarrow>
      outputName i fmt \<notin> vfiles (engine (snd (convertFile ffmpeg fmt s i w))))"
proof -
  have wr: "\<And>p d e e' r. writeFile ffmpeg p d e = (r, e') \<Longrightarrow> vfiles e' \<subseteq> insert p (vfiles e)"
    using c unfolding engineContract_def by (metis snd_conv)
  have xr: "\<And>cmd e e'. exec ffmpeg cmd e = (Rejected, e') \<Longrightarrow> vfiles e' \<subseteq> vfiles e"
    using c unfolding engineContract_def by (metis fst_conv snd_conv)
  have xf: "\<And>opt p out e r e'. exec ffmpeg [opt, p, out] e = (r, e') \<Longrightarrow>
      vfiles e' \<subseteq> insert out (vfiles e)"
    using c unfolding engineContract_def by (metis snd_conv)
  have rd: "\<And>p e r e'. readFile ffmpeg p e = (r, e') \<Longrightarrow> vfiles e' \<subseteq> vfiles e"
    using c unfolding engineContract_def by (metis snd_conv)
  have rr: "\<And>p e e'. readFile ffmpeg p e = (Rejected, e') \<Longrightarrow> p \<notin> vfiles e"
    using c unfolding engineContract_def by (metis fst_conv)
  have dl: "\<And>p e r e'. deleteFile ffmpeg p e = (r, e') \<Longrightarrow> vfiles e' \<subseteq> vfiles e - {p}"
    using c unfolding engineContract_def by (metis snd_conv)
  show ?thesis
  proof (cases rule: convertFile_cases
      [where s = s and ffmpeg = ffmpeg and i = i and w = w and fmt = fmt])
    case (no_content r e')
    then show ?thesis
      using dl [OF no_content(2)]
      by (simp add: convertFile_no_content [OF no_content] failingStep_def)
  next
    case (write_rejected d e1 r e')
    then show ?thesis
      using wr [OF write_rejected(2)] dl [OF write_rejected(3)]
      by (simp add: convertFile_write_rejected [OF write_rejected] failingStep_def) blast
  next
    case (exec_rejected d e1 e2 r e')
    then show ?thesis
      using wr [OF exec_rejected(2)] xr [OF exec_rejected(3)] dl [OF exec_rejected(4)]
      by (simp add: convertFile_exec_rejected [OF exec_rejected] failingStep_def) blast
  next
    case (read_rejected d e1 e2 e3 r e')
    then show ?thesis
      using wr [OF read_rejected(2)] xf [OF read_rejected(3)] rd [OF read_rejected(4)]
        rr [OF read_rejected(4)] dl [OF read_rejected(5)]
      by (simp add: convertFile_read_rejected [OF read_rejected] failingStep_def) blast
  next
    case (cleanup_rejected d e1 e2 out e3 e4 r e')
    then show ?thesis
      using wr [OF cleanup_rejected(2)] xf [OF cleanup_rejected(3)] rd [OF cleanup_rejected(4)]
        dl [OF cleanup_rejected(5)] dl [OF cleanup_rejected(6)]
      by (simp add: convertFile_cleanup_rejected [OF cleanup_rejected] failingStep_def) blast
  next
    case (succeeded d e1 e2 out e3 e4 r e')
    then show ?thesis
      using wr [OF succeeded(2)] xf [OF succeeded(3)] rd [OF succeeded(4)]
        dl [OF succeeded(5)] dl [OF succeeded(6)]
      by (simp add: convertFile_succeeded [OF succeeded] failingStep_def) blast
  qed
qed

lemma convertFile_last_call:
  "last (calls (snd (convertFile ffmpeg fmt s i w))) = DeleteFile (inputName i (theFile s)) \<and>
   (DeleteFile (outputName i fmt) \<in> set (drop (length (calls w))
       (calls (snd (convertFile ffmpeg fmt s i w))))) =
     (failingStep ffmpeg fmt s i (engine w) \<in> {None, Some OutputRemoval})"
  using convertFile_calls [of ffmpeg fmt s i w] names_differ [of i "theFile s" i fmt]
  by auto

lemma vfsNames_delete: "vfsNames (vfsDelete p fs) = vfsNames fs - {p}"
  by (auto simp: vfsNames_def vfsDelete_def image_iff)

lemma vfsNames_write: "vfsNames (vfsWrite p d fs) = insert p (vfsNames fs)"
proof -
  have "vfsNames (vfsWrite p d fs) = insert p (vfsNames (vfsDelete p fs))"
    by (simp add: vfsWrite_def vfsNames_def)
  then show ?thesis
    by (auto simp: vfsNames_delete)
qed

lemma map_of_absent: "(map_of fs p = None) = (p \<notin> vfsNames fs)"
  by (simp add: vfsNames_def map_of_eq_None_iff)

lemma virtualEngine_contract: "engineContract (virtualEngine pr) vfsNames"
  unfolding engineContract_def
proof (intro conjI allI impI)
  fix p d and e :: vfs
  show "vfsNames (snd (writeFile (virtualEngine pr) p d e)) \<subseteq> insert p (vfsNames e)"
    by (simp add: virtualEngine_def vfsNames_write)
next
  fix cmd and e :: vfs
  assume "fst (exec (virtualEngine pr) cmd e) = Rejected"
  then show "vfsNames (snd (exec (virtualEngine pr) cmd e)) \<subseteq> vfsNames e"
    by (auto simp: virtualEngine_def vfsExec_def
        split: list.splits option.splits transcoding.splits if_splits)
next
  fix opt p out and e :: vfs
  show "vfsNames (snd (exec (virtualEngine pr) [opt, p, out] e)) \<subseteq> insert out (vfsNames e)"
    by (auto simp: virtualEngine_def vfsExec_def vfsNames_write
        split: option.splits transcoding.splits)
next
  fix p and e :: vfs
  show "vfsNames (snd (readFile (virtualEngine pr) p e)) \<subseteq> vfsNames e"
    by (auto simp: virtualEngine_def vfsRead_def vfsNames_delete split: option.splits)
next
  fix p and e :: vfs
  assume "fst (readFile (virtualEngine pr) p e) = Rejected"
  then show "p \<notin> vfsNames e"
    by (auto simp: virtualEngine_def vfsRead_def map_of_absent [symmetric] split: option.splits)
next
  fix p and e :: vfs
  show "vfsNames (snd (deleteFile (virtualEngine pr) p e)) \<subseteq> vfsNames e - {p}"
    by (auto simp: virtualEngine_def vfsRemove_def vfsNames_delete map_of_absent
        split: option.splits)
qed

lemma convertFile_output_gone:
  assumes c: "engineContract ffmpeg vfiles"
    and f: "failingStep ffmpeg fmt s i (engine w) \<notin> {Some Transfer, Some Execution}"
  shows "outputName i fmt \<notin> vfiles (engine (snd (convertFile ffmpeg fmt s i w)))"
proof -
  have rd: "\<And>p e r e'. readFile ffmpeg p e = (r, e') \<Longrightarrow> vfiles e' \<subseteq> vfiles e"
    using c unfolding engineContract_def by (metis snd_conv)
  have rr: "\<And>p e e'. readFile ffmpeg p e = (Rejected, e') \<Longrightarrow> p \<notin> vfiles e"
    using c unfolding engineContract_def by (metis fst_conv)
  have dl: "\<And>p e r e'. deleteFile ffmpeg p e = (r, e') \<Longrightarrow> vfiles e' \<subseteq> vfiles e - {p}"
    using c unfolding engineContract_def by (metis snd_conv)
  show ?thesis
  proof (cases rule: convertFile_cases
      [where s = s and ffmpeg = ffmpeg and i = i and w = w and fmt = fmt])
    case (no_content r e')
    then show ?thesis using f by (simp add: failingStep_def)
  next
    case (write_rejected d e1 r e')
    then show ?thesis using f by (simp add: failingStep_def)
  next
    case (exec_rejected d e1 e2 r e')
    then show ?thesis using f by (simp add: failingStep_def)
  next
    case (read_rejected d e1 e2 e3 r e')
    then show ?thesis
      using rd [OF read_rejected(4)] rr [OF read_rejected(4)] dl [OF read_rejected(5)]
      by (simp add: convertFile_read_rejected [OF read_rejected]) blast
  next
    case (cleanup_rejected d e1 e2 out e3 e4 r e')
    then show ?thesis
      using dl [OF cleanup_rejected(5)] dl [OF cleanup_rejected(6)]
      by (simp add: convertFile_cleanup_rejected [OF cleanup_rejected]) blast
  next
    case (succeeded d e1 e2 out e3 e4 r e')
    then show ?thesis
      using dl [OF succeeded(5)] dl [OF succeeded(6)]
      by (simp add: convertFile_succeeded [OF succeeded]) blast
  qed
qed

section \<open>A handler running alone\<close>

lemma turns_append: "turns ffmpeg (xs @ ys) sys = turns ffmpeg ys (turns ffmpeg xs sys)"
  by (induction xs arbitrary: sys) simp_all

lemma turn_Resume_lone:
  "turn ffmpeg (Resume 0) \<lparr>page = w, activations = [t]\<rparr> =
     (case resumeActivation ffmpeg t w of (t', w') \<Rightarrow> \<lparr>page = w', activations = [t']\<rparr>)"
  by (simp add: turn_def)

lemma case_of_advance:
  "(case (case x of (rest', a', w') \<Rightarrow> (f rest' a' w', g rest' a' w')) of
      (t', w') \<Rightarrow> h t' w') =
   (case x of (rest', a', w') \<Rightarrow> h (f rest' a' w') (g rest' a' w'))"
  by (cases x) simp

lemmas step_defs = resumeActivation_def enterCatch_def enterFinally_def lone_def turn_Resume_lone
  case_of_advance Let_def

lemma one_conversion_no_content:
  assumes pending: "status s \<noteq> Done"
    and fmt: "closureFormat t = fmt"
    and path: "content (theFile s) = None"
      "deleteFile ffmpeg (inputName i (theFile s)) (engine w) = (r, e')"
  shows "turns ffmpeg [Resume 0, Resume 0] (lone t (advance ((i, s) # rest) w)) =
    lone t (advance rest (snd (convertFile ffmpeg fmt s i w)))"
  using assms
  by (cases r)
    (simp_all add: step_defs convertFile_def convertFile_try_def async_defs prim_defs)

lemma one_conversion_write_rejected:
  assumes pending: "status s \<noteq> Done"
    and fmt: "closureFormat t = fmt"
    and path: "content (theFile s) = Some d"
      "writeFile ffmpeg (inputName i (theFile s)) d (engine w) = (Rejected, e1)"
      "deleteFile ffmpeg (inputName i (theFile s)) e1 = (r, e')"
  shows "turns ffmpeg [Resume 0, Resume 0, Resume 0] (lone t (advance ((i, s) # rest) w)) =
    lone t (advance rest (snd (convertFile ffmpeg fmt s i w)))"
  using assms
  by (cases r)
    (simp_all add: step_defs convertFile_def convertFile_try_def async_defs prim_defs)

lemma one_conversion_exec_rejected:
  assumes pending: "status s \<noteq> Done"
    and fmt: "closureFormat t = fmt"
    and path: "content (theFile s) = Some d"
      "writeFile ffmpeg (inputName i (theFile s)) d (engine w) = (Fulfilled (), e1)"
      "exec ffmpeg [''-i'', inputName i (theFile s), outputName i fmt] e1 = (Rejected, e2)"
      "deleteFile ffmpeg (inputName i (theFile s)) e2 = (r, e')"
  shows "turns ffmpeg [Resume 0, Resume 0, Resume 0, Resume 0] (lone t (advance ((i, s) # rest) w)) =
    lone t (advance rest (snd (convertFile ffmpeg fmt s i w)))"
  using assms
  by (cases r)
    (simp_all add: step_defs convertFile_def convertFile_try_def async_defs prim_defs)

lemma one_conversion_read_rejected:
  assumes pending: "status s \<noteq> Done"
    and fmt: "closureFormat t = fmt"
    and path: "content (theFile s) = Some d"
      "writeFile ffmpeg (inputName i (theFile s)) d (engine w) = (Fulfilled (), e1)"
      "exec ffmpeg [''-i'', inputName i (theFile s), outputName i fmt] e1 = (Fulfilled (), e2)"
      "readFile ffmpeg (outputName i fmt) e2 = (Rejected, e3)"
      "deleteFile ffmpeg (inputName i (theFile s)) e3 = (r, e')"
  shows "turns ffmpeg [Resume 0, Resume 0, Resume 0, Resume 0, Resume 0] (lone t (advance ((i, s) # rest) w)) =
    lone t (advance rest (snd (convertFile ffmpeg fmt s i w)))"
  using assms
  by (cases r)
    (simp_all add: step_defs convertFile_def convertFile_try_def async_defs prim_defs)

lemma one_conversion_cleanup_rejected:
  assumes pending: "status s \<noteq> Done"
    and fmt: "closureFormat t = fmt"
    and path: "content (theFile s) = Some d"
      "writeFile ffmpeg (inputName i (theFile s)) d (engine w) = (Fulfilled (), e1)"
      "exec ffmpeg [''-i'', inputName i (theFile s), outputName i fmt] e1 = (Fulfilled (), e2)"
      "readFile ffmpeg (outputName i fmt) e2 = (Fulfilled out, e3)"
      "deleteFile ffmpeg (outputName i fmt) e3 = (Rejected, e4)"
      "deleteFile ffmpeg (inputName i (theFile s)) e4 = (r, e')"
  shows "turns ffmpeg [Resume 0, Resume 0, Resume 0, Resume 0, Resume 0, Resume 0] (lone t (advance ((i, s) # rest) w)) =
    lone t (advance rest (snd (convertFile ffmpeg fmt s i w)))"
  using assms
  by (cases r)
    (simp_all add: step_defs convertFile_def convertFile_try_def async_defs prim_defs)

lemma one_conversion_succeeded:
  assumes pending: "status s \<noteq> Done"
    and fmt: "closureFormat t = fmt"
    and path: "content (theFile s) = Some d"
      "writeFile ffmpeg (inputName i (theFile s)) d (engine w) = (Fulfilled (), e1)"
      "exec ffmpeg [''-i'', inputName i (theFile s), outputName i fmt] e1 = (Fulfilled (), e2)"
      "readFile ffmpeg (outputName i fmt) e2 = (Fulfilled out, e3)"
      "deleteFile ffmpeg (outputName i fmt) e3 = (Fulfilled (), e4)"
      "deleteFile ffmpeg (inputName i (theFile s)) e4 = (r, e')"
  shows "turns ffmpeg [Resume 0, Resume 0, Resume 0, Resume 0, Resume 0, Resume 0] (lone t (advance ((i, s) # rest) w)) =
    lone t (advance rest (snd (convertFile ffmpeg fmt s i w)))"
  using assms
  by (cases r)
    (simp_all add: step_defs convertFile_def convertFile_try_def async_defs prim_defs)

lemma one_conversion:
  assumes pending: "status s \<noteq> Done" and fmt: "closureFormat t = fmt"
  shows "\<exists>evs. set evs \<subseteq> {Resume 0} \<and>
    turns ffmpeg evs (lone t (advance ((i, s) # rest) w)) =
      lone t (advance rest (snd (convertFile ffmpeg fmt s i w)))"
proof (cases rule: convertFile_cases
    [where s = s and ffmpeg = ffmpeg and i = i and w = w and fmt = fmt])
  case (no_content r e')
  have "turns ffmpeg [Resume 0, Resume 0] (lone t (advance ((i, s) # rest) w)) =
      lone t (advance rest (snd (convertFile ffmpeg fmt s i w)))"
    by (rule one_conversion_no_content [OF pending fmt no_content])
  moreover have "set [Resume 0, Resume 0] \<subseteq> {Resume 0}"
    by simp
  ultimately show ?thesis by blast
next
  case (write_rejected d e1 r e')
  have "turns ffmpeg [Resume 0, Resume 0, Resume 0] (lone t (advance ((i, s) # rest) w)) =
      lone t (advance rest (snd (convertFile ffmpeg fmt s i w)))"
    by (rule one_conversion_write_rejected [OF pending fmt write_rejected])
  moreover have "set [Resume 0, Resume 0, Resume 0] \<subseteq> {Resume 0}"
    by simp
  ultimately show ?thesis by blast
next
  case (exec_rejected d e1 e2 r e')
  have "turns ffmpeg [Resume 0, Resume 0, Resume 0, Resume 0] (lone t (advance ((i, s) # rest) w)) =
      lone t (advance rest (snd (convertFile ffmpeg fmt s i w)))"
    by (rule one_conversion_exec_rejected [OF pending fmt exec_rejected])
  moreover have "set [Resume 0, Resume 0, Resume 0, Resume 0] \<subseteq> {Resume 0}"
    by simp
  ultimately show ?thesis by blast
next
  case (read_rejected d e1 e2 e3 r e')
  have "turns ffmpeg [Resume 0, Resume 0, Resume 0, Resume 0, Resume 0] (lone t (advance ((i, s) # rest) w)) =
      lone t (advance rest (snd (convertFile ffmpeg fmt s i w)))"
    by (rule one_conversion_read_rejected [OF pending fmt read_rejected])
  moreover have "set [Resume 0, Resume 0, Resume 0, Resume 0, Resume 0] \<subseteq> {Resume 0}"
    by simp
  ultimately show ?thesis by blast
next
  case (cleanup_rejected d e1 e2 out e3 e4 r e')
  have "turns ffmpeg [Resume 0, Resume 0, Resume 0, Resume 0, Resume 0, Resume 0] (lone t (advance ((i, s) # rest) w)) =
      lone t (advance rest (snd (convertFile ffmpeg fmt s i w)))"
    by (rule one_conversion_cleanup_rejected [OF pending fmt cleanup_rejected])
  moreover have "set [Resume 0, Resume 0, Resume 0, Resume 0, Resume 0, Resume 0] \<subseteq> {Resume 0}"
    by simp
  ultimately show ?thesis by blast
next
  case (succeeded d e1 e2 out e3 e4 r e')
  have "turns ffmpeg [Resume 0, Resume 0, Resume 0, Resume 0, Resume 0, Resume 0] (lone t (advance ((i, s) # rest) w)) =
      lone t (advance rest (snd (convertFile ffmpeg fmt s i w)))"
    by (rule one_conversion_succeeded [OF pending fmt succeeded])
  moreover have "set [Resume 0, Resume 0, Resume 0, Resume 0, Resume 0, Resume 0] \<subseteq> {Resume 0}"
    by simp
  ultimately show ?thesis by blast
qed

lemma lone_loop:
  assumes fmt: "closureFormat t = fmt"
  shows "\<exists>evs. set evs \<subseteq> {Resume 0} \<and>
    turns ffmpeg evs (lone t (advance ps w)) =
      lone t ([], None, setIsConverting False (snd (convertLoop ffmpeg fmt ps w)))"
proof (induction ps arbitrary: w)
  case Nil
  have "turns ffmpeg [] (lone t (advance [] w)) =
      lone t ([], None, setIsConverting False (snd (convertLoop ffmpeg fmt [] w)))"
    by (simp add: resolved_def)
  then show ?case by (intro exI [of _ "[]"]) simp
next
  case (Cons p ps)
  obtain i s where p: "p = (i, s)" by (cases p)
  show ?case
  proof (cases "status s = Done")
    case True
    then show ?thesis
      using Cons.IH [of w] by (simp add: p)
  next
    case False
    let ?w1 = "snd (convertFile ffmpeg fmt s i w)"
    from one_conversion [OF False fmt] obtain evs1 where evs1: "set evs1 \<subseteq> {Resume 0}"
      "turns ffmpeg evs1 (lone t (advance ((i, s) # ps) w)) = lone t (advance ps ?w1)"
      by blast
    from Cons.IH [of ?w1] obtain evs2 where evs2: "set evs2 \<subseteq> {Resume 0}"
      "turns ffmpeg evs2 (lone t (advance ps ?w1)) =
        lone t ([], None, setIsConverting False (snd (convertLoop ffmpeg fmt ps ?w1)))"
      by blast
    have loop: "convertLoop ffmpeg fmt (p # ps) w = convertLoop ffmpeg fmt ps ?w1"
      unfolding p convertLoop_Cons using False by simp
    have "turns ffmpeg (evs1 @ evs2) (lone t (advance (p # ps) w)) =
        turns ffmpeg evs2 (turns ffmpeg evs1 (lone t (advance ((i, s) # ps) w)))"
      by (simp only: turns_append p)
    also have "\<dots> = turns ffmpeg evs2 (lone t (advance ps ?w1))"
      by (simp only: evs1(2))
    also have "\<dots> = lone t ([], None, setIsConverting False (snd (convertLoop ffmpeg fmt ps ?w1)))"
      by (rule evs2(2))
    finally have "turns ffmpeg (evs1 @ evs2) (lone t (advance (p # ps) w)) =
        lone t ([], None, setIsConverting False (snd (convertLoop ffmpeg fmt (p # ps) w)))"
      by (simp only: loop)
    moreover have "set (evs1 @ evs2) \<subseteq> {Resume 0}"
      using evs1(1) evs2(1) by simp
    ultimately show ?thesis by blast
  qed
qed

lemma lone_handler_runs_handleConvertAll:
  assumes "activations sys = []"
  shows "\<exists>evs. set evs \<subseteq> {Resume 0} \<and>
    turns ffmpeg evs (startConvertAll sys) =
      \<lparr>page = snd (handleConvertAll ffmpeg (page sys)),
       activations = [\<lparr>closureFormat = targetFormat (page sys), remaining = [], awaiting = None\<rparr>]\<rparr>"
proof -
  let ?t = "\<lparr>closureFormat = targetFormat (page sys), remaining = [], awaiting = None\<rparr>"
  have start: "startConvertAll sys =
      lone ?t (advance (enumerate 0 (fileStates (page sys))) (setIsConverting True (page sys)))"
    using assms by (simp add: startConvertAll_def lone_def split: prod.splits)
  have "closureFormat ?t = targetFormat (page sys)" by simp
  from lone_loop [OF this, of ffmpeg "enumerate 0 (fileStates (page sys))"
      "setIsConverting True (page sys)"]
  show ?thesis
    by (simp add: start handleConvertAll_snd lone_def)
qed

section \<open>One conversion at a time through the controls\<close>

lemma isConverting_marks [simp]:
  "isConverting (markConverting i w) = isConverting w"
  "isConverting (markDone i u w) = isConverting w"
  "isConverting (markError i w) = isConverting w"
  by (simp_all add: mark_defs)

lemma isConverting_calls:
  "isConverting (snd (ffmpeg_writeFile ffmpeg p d w)) = isConverting w"
  "isConverting (snd (ffmpeg_exec ffmpeg cmd w)) = isConverting w"
  "isConverting (snd (ffmpeg_readFile ffmpeg p w)) = isConverting w"
  "isConverting (snd (ffmpeg_deleteFile ffmpeg p w)) = isConverting w"
  "isConverting (snd (createObjectURL b w)) = isConverting w"
  "isConverting (snd (fetchFile f w)) = isConverting w"
  by (simp_all add: prim_defs Let_def split: prod.splits option.splits)

lemma advance_isConverting:
  assumes "advance ps w = (rest, a, w')"
  shows "isConverting w' = (a \<noteq> None \<and> isConverting w)"
  using assms
proof (induction ps arbitrary: w)
  case Nil
  then show ?case by (auto simp: setIsConverting_def)
next
  case (Cons p ps)
  obtain i s where p: "p = (i, s)" by (cases p)
  show ?case
  proof (cases "status s = Done")
    case True
    then show ?thesis using Cons by (simp add: p)
  next
    case False
    then show ?thesis
      using Cons.prems isConverting_calls(6) [of "theFile s" "markConverting i w"]
      by (auto simp: p split: prod.splits)
  qed
qed

lemma resumeActivation_idle:
  assumes "awaiting t = None"
  shows "resumeActivation ffmpeg t w = (t, w)"
  using assms by (simp add: resumeActivation_def)

lemma resumeActivation_cases:
  assumes "remaining t = (i, s) # rest"
  shows "awaiting t = Some (Fetch (Fulfilled d)) \<Longrightarrow> resumeActivation ffmpeg t w =
      (t\<lparr>awaiting := Some (Write (fst (ffmpeg_writeFile ffmpeg (inputName i (theFile s)) d w)))\<rparr>,
       snd (ffmpeg_writeFile ffmpeg (inputName i (theFile s)) d w))"
    and "awaiting t = Some (Write (Fulfilled u)) \<Longrightarrow> resumeActivation ffmpeg t w =
      (t\<lparr>awaiting := Some (Execute (fst (ffmpeg_exec ffmpeg
          [''-i'', inputName i (theFile s), outputName i (closureFormat t)] w)))\<rparr>,
       snd (ffmpeg_exec ffmpeg
          [''-i'', inputName i (theFile s), outputName i (closureFormat t)] w))"
    and "awaiting t = Some (Execute (Fulfilled u)) \<Longrightarrow> resumeActivation ffmpeg t w =
      (t\<lparr>awaiting := Some (Read (fst (ffmpeg_readFile ffmpeg (outputName i (closureFormat t)) w)))\<rparr>,
       snd (ffmpeg_readFile ffmpeg (outputName i (closureFormat t)) w))"
    and "awaiting t = Some (Read (Fulfilled d)) \<Longrightarrow> resumeActivation ffmpeg t w =
      (t\<lparr>awaiting := Some (DeleteOutput (fst (ffmpeg_deleteFile ffmpeg
          (outputName i (closureFormat t))
          (markDone i (''blob:'' @ showNat (length (objectUrls w)))
            (snd (createObjectURL \<lparr>blob_parts = d,
              blob_type = ''image/'' @ formatString (closureFormat t)\<rparr> w))))))\<rparr>,
       snd (ffmpeg_deleteFile ffmpeg (outputName i (closureFormat t))
          (markDone i (''blob:'' @ showNat (length (objectUrls w)))
            (snd (createObjectURL \<lparr>blob_parts = d,
              blob_type = ''image/'' @ formatString (closureFormat t)\<rparr> w)))))"
    and "awaiting t = Some (DeleteOutput (Fulfilled u)) \<Longrightarrow> resumeActivation ffmpeg t w =
      (t\<lparr>awaiting := fst (enterFinally ffmpeg i s w)\<rparr>, snd (enterFinally ffmpeg i s w))"
    and "awaiting t = Some (DeleteInput r) \<Longrightarrow> resumeActivation ffmpeg t w =
      (t\<lparr>remaining := fst (advance rest w), awaiting := fst (snd (advance rest w))\<rparr>,
       snd (snd (advance rest w)))"
    and "awaiting t = Some a \<Longrightarrow>
      a \<in> {Fetch Rejected, Write Rejected, Execute Rejected, Read Rejected, DeleteOutput Rejected} \<Longrightarrow>
      resumeActivation ffmpeg t w =
        (t\<lparr>awaiting := fst (enterCatch ffmpeg i s w)\<rparr>, snd (enterCatch ffmpeg i s w))"
  using assms
  by (auto simp: resumeActivation_def Let_def createObjectURL_def split_beta)

lemma enterFinally_active:
  "fst (enterFinally ffmpeg i s w) \<noteq> None \<and>
   isConverting (snd (enterFinally ffmpeg i s w)) = isConverting w"
  using isConverting_calls(4) [of ffmpeg "inputName i (theFile s)" w]
  by (simp add: enterFinally_def split_beta)

lemma enterCatch_active:
  "fst (enterCatch ffmpeg i s w) \<noteq> None \<and>
   isConverting (snd (enterCatch ffmpeg i s w)) = isConverting w"
  using enterFinally_active [of ffmpeg i s "markError i w"]
  by (simp add: enterCatch_def)

lemma resumeActivation_isConverting:
  assumes run: "resumeActivation ffmpeg t w = (t', w')"
    and active: "awaiting t \<noteq> None"
    and busy: "isConverting w"
  shows "isConverting w' = (awaiting t' \<noteq> None)"
proof -
  from active obtain a where a: "awaiting t = Some a" by auto
  show ?thesis
  proof (cases "remaining t")
    case Nil
    then show ?thesis using run a busy by (auto simp: resumeActivation_def)
  next
    case (Cons p rest)
    obtain i s where p: "p = (i, s)" by (cases p)
    note rem = Cons [unfolded p]
    note eqs = resumeActivation_cases [OF rem, of _ ffmpeg w]
    have adv: "isConverting (snd (snd (advance rest w))) = (fst (snd (advance rest w)) \<noteq> None)"
      using advance_isConverting [of rest w "fst (advance rest w)" "fst (snd (advance rest w))"
          "snd (snd (advance rest w))"] busy
      by simp
    show ?thesis
    proof (cases a)
      case (Fetch r)
      then show ?thesis
        using run a busy eqs(1,7) isConverting_calls(1) [of ffmpeg _ _ w]
          enterCatch_active [of ffmpeg i s w]
        by (cases r) auto
    next
      case (Write r)
      then show ?thesis
        using run a busy eqs(2,7) isConverting_calls(2) [of ffmpeg _ w]
          enterCatch_active [of ffmpeg i s w]
        by (cases r) auto
    next
      case (Execute r)
      then show ?thesis
        using run a busy eqs(3,7) isConverting_calls(3) [of ffmpeg _ w]
          enterCatch_active [of ffmpeg i s w]
        by (cases r) auto
    next
      case (Read r)
      then show ?thesis
        using run a busy eqs(4,7) isConverting_calls(4) [of ffmpeg]
          isConverting_calls(5) [of _ w]
          enterCatch_active [of ffmpeg i s w]
        by (cases r) auto
    next
      case (DeleteOutput r)
      then show ?thesis
        using run a busy eqs(5,7) enterFinally_active [of ffmpeg i s w]
          enterCatch_active [of ffmpeg i s w]
        by (cases r) auto
    next
      case (DeleteInput r)
      then show ?thesis
        using run a eqs(6) adv by auto
    qed
  qed
qed


lemma filter_update_count:
  assumes "k < length xs"
  shows "length (filter P (xs[k := y])) + (if P (xs ! k) then 1 else 0) =
    length (filter P xs) + (if P y then 1 else 0)"
  using assms
proof (induction xs arbitrary: k)
  case Nil
  then show ?case by simp
next
  case (Cons x xs)
  then show ?case by (cases k) auto
qed

lemma turn_Resume_oneAtATime:
  assumes inv: "oneAtATime sys"
  shows "oneAtATime (turn ffmpeg (Resume k) sys)"
proof (cases "k < length (activations sys)")
  case False
  then show ?thesis using inv by (simp add: turn_def)
next
  case True
  obtain t' w' where run: "resumeActivation ffmpeg (activations sys ! k) (page sys) = (t', w')"
    by (cases "resumeActivation ffmpeg (activations sys ! k) (page sys)")
  have after: "turn ffmpeg (Resume k) sys = \<lparr>page = w', activations = (activations sys)[k := t']\<rparr>"
    using True run by (simp add: turn_def)
  show ?thesis
  proof (cases "awaiting (activations sys ! k) = None")
    case idle: True
    then have "t' = activations sys ! k" "w' = page sys"
      using run by (simp_all add: resumeActivation_idle)
    then show ?thesis
      using inv by (simp add: after oneAtATime_def inFlight_def)
  next
    case active: False
    have count: "length (filter (\<lambda>t. awaiting t \<noteq> None) ((activations sys)[k := t'])) + 1 =
        length (filter (\<lambda>t. awaiting t \<noteq> None) (activations sys)) +
          (if awaiting t' \<noteq> None then 1 else 0)"
      using filter_update_count [OF True, of "\<lambda>t. awaiting t \<noteq> None" t'] active by simp
    have "0 < inFlight sys"
      unfolding inFlight_def using True active
      by (intro length_pos_if_in_set [of "activations sys ! k"]) simp
    then have busy: "isConverting (page sys)" and one: "inFlight sys = 1"
      using inv by (simp_all add: oneAtATime_def split: if_splits)
    have "isConverting w' = (awaiting t' \<noteq> None)"
      using run active busy by (rule resumeActivation_isConverting)
    then show ?thesis
      using count one by (simp add: after oneAtATime_def inFlight_def split: if_splits)
  qed
qed

lemma startConvertAll_oneAtATime:
  assumes inv: "oneAtATime sys" and free: "\<not> isConverting (page sys)"
  shows "oneAtATime (startConvertAll sys)"
proof -
  obtain rest a w' where adv:
    "advance (enumerate 0 (fileStates (page sys))) (setIsConverting True (page sys)) = (rest, a, w')"
    by (cases "advance (enumerate 0 (fileStates (page sys))) (setIsConverting True (page sys))")
  have "isConverting w' = (a \<noteq> None)"
    using advance_isConverting [OF adv] by (simp add: setIsConverting_def)
  moreover have "inFlight sys = 0"
    using inv free by (simp add: oneAtATime_def)
  ultimately show ?thesis
    by (simp add: startConvertAll_def adv oneAtATime_def inFlight_def)
qed

lemma setTargetFormat_oneAtATime:
  assumes "oneAtATime sys"
  shows "oneAtATime (sys\<lparr>page := setTargetFormat fmt (page sys)\<rparr>)"
  using assms by (simp add: oneAtATime_def inFlight_def setTargetFormat_def)

lemma turn_oneAtATime:
  assumes inv: "oneAtATime sys" and ev: "viaControls ev"
  shows "oneAtATime (turn ffmpeg ev sys)"
proof (cases ev)
  case (KeyDown e)
  show ?thesis
  proof (cases "handleKeyDown e")
    case None
    then show ?thesis using inv KeyDown by (simp add: turn_def)
  next
    case (Some c)
    then have "c \<noteq> ConvertAll"
      using ev KeyDown by (simp add: viaControls_def)
    then show ?thesis
      using inv KeyDown Some setTargetFormat_oneAtATime [OF inv]
      by (cases c) (simp_all add: turn_def runCommand_def)
  qed
next
  case ClickConvert
  then show ?thesis
    using inv startConvertAll_oneAtATime [OF inv]
    by (simp add: turn_def convertButtonDisabled_def)
next
  case (SelectFormat fmt)
  then show ?thesis
    using inv setTargetFormat_oneAtATime [OF inv] by (simp add: turn_def)
next
  case (Resume k)
  then show ?thesis
    using turn_Resume_oneAtATime [OF inv] by simp
qed

lemma turns_oneAtATime:
  assumes "oneAtATime sys" and "list_all viaControls evs"
  shows "oneAtATime (turns ffmpeg evs sys)"
  using assms by (induction evs arbitrary: sys) (simp_all add: turn_oneAtATime)

section \<open>The engine's files while handlers overlap\<close>

lemma owned_idle: "awaiting t = None \<Longrightarrow> owned t = {}"
  by (simp add: owned_def)

lemma owned_update:
  assumes "remaining t = (i, s) # rest"
  shows "owned (t\<lparr>awaiting := Some a\<rparr>) =
    (case a of
       Fetch r \<Rightarrow> {}
     | Write r \<Rightarrow> {inputName i (theFile s)}
     | Execute r \<Rightarrow> (if r = Rejected then {inputName i (theFile s)}
         else {inputName i (theFile s), outputName i (closureFormat t)})
     | Read r \<Rightarrow> (if r = Rejected then {inputName i (theFile s)}
         else {inputName i (theFile s), outputName i (closureFormat t)})
     | DeleteOutput r \<Rightarrow> {inputName i (theFile s)}
     | DeleteInput r \<Rightarrow> {})"
  using assms by (simp add: owned_def Let_def)

lemma owned_at:
  assumes "remaining t = (i, s) # rest" and "awaiting t = Some a"
  shows "owned t =
    (case a of
       Fetch r \<Rightarrow> {}
     | Write r \<Rightarrow> {inputName i (theFile s)}
     | Execute r \<Rightarrow> (if r = Rejected then {inputName i (theFile s)}
         else {inputName i (theFile s), outputName i (closureFormat t)})
     | Read r \<Rightarrow> (if r = Rejected then {inputName i (theFile s)}
         else {inputName i (theFile s), outputName i (closureFormat t)})
     | DeleteOutput r \<Rightarrow> {inputName i (theFile s)}
     | DeleteInput r \<Rightarrow> {})"
  using assms by (simp add: owned_def Let_def)

lemma engine_marks [simp]:
  "engine (markConverting i w) = engine w"
  "engine (markDone i u w) = engine w"
  "engine (markError i w) = engine w"
  by (simp_all add: mark_defs)

lemma engine_calls:
  "engine (snd (ffmpeg_writeFile ffmpeg p d w)) = snd (writeFile ffmpeg p d (engine w))"
  "engine (snd (ffmpeg_exec ffmpeg cmd w)) = snd (exec ffmpeg cmd (engine w))"
  "engine (snd (ffmpeg_readFile ffmpeg p w)) = snd (readFile ffmpeg p (engine w))"
  "engine (snd (ffmpeg_deleteFile ffmpeg p w)) = snd (deleteFile ffmpeg p (engine w))"
  "engine (snd (createObjectURL b w)) = engine w"
  "engine (snd (fetchFile f w)) = engine w"
  by (simp_all add: prim_defs Let_def split: prod.splits option.splits)

lemma outcome_calls:
  "fst (ffmpeg_exec ffmpeg cmd w) = fst (exec ffmpeg cmd (engine w))"
  "fst (ffmpeg_readFile ffmpeg p w) = fst (readFile ffmpeg p (engine w))"
  by (simp_all add: prim_defs split: prod.splits)

lemma advance_engine: "engine (snd (snd (advance ps w))) = engine w"
proof (induction ps arbitrary: w)
  case Nil
  show ?case by simp
next
  case (Cons p ps)
  obtain i s where p: "p = (i, s)" by (cases p)
  show ?case using Cons.IH
    by (simp add: p fetchFile_def split: option.splits)
qed

lemma advance_awaits:
  "fst (snd (advance ps w)) = None \<or> (\<exists>r. fst (snd (advance ps w)) = Some (Fetch r))"
proof (induction ps arbitrary: w)
  case Nil
  show ?case by simp
next
  case (Cons p ps)
  obtain i s where p: "p = (i, s)" by (cases p)
  show ?case using Cons.IH
    by (simp add: p fetchFile_def split: option.splits)
qed

lemma advance_owned:
  "owned (t\<lparr>remaining := fst (advance ps w), awaiting := fst (snd (advance ps w))\<rparr>) = {}"
  using advance_awaits [of ps w]
  by (auto simp: owned_def split: list.splits)

lemma enterFinally_files:
  assumes c: "engineContract ffmpeg vfiles"
  shows "vfiles (engine (snd (enterFinally ffmpeg i s w))) \<subseteq>
      vfiles (engine w) - {inputName i (theFile s)}"
    and "\<exists>r. fst (enterFinally ffmpeg i s w) = Some (DeleteInput r)"
  using c
  by (simp_all add: enterFinally_def split_beta engine_calls engineContract_def)

lemma enterCatch_files:
  assumes c: "engineContract ffmpeg vfiles"
  shows "vfiles (engine (snd (enterCatch ffmpeg i s w))) \<subseteq>
      vfiles (engine w) - {inputName i (theFile s)}"
    and "\<exists>r. fst (enterCatch ffmpeg i s w) = Some (DeleteInput r)"
  using enterFinally_files [OF c, of i s "markError i w"]
  by (simp_all add: enterCatch_def)

lemma resumeActivation_files:
  assumes c: "engineContract ffmpeg vfiles"
    and run: "resumeActivation ffmpeg t w = (t', w')"
  shows "vfiles (engine w') \<subseteq> vfiles (engine w) \<union> owned t' \<and>
    (owned t - owned t') \<inter> vfiles (engine w') = {}"
proof (cases "awaiting t")
  case None
  then show ?thesis using run by (simp add: resumeActivation_idle)
next
  case (Some a)
  show ?thesis
  proof (cases "remaining t")
    case Nil
    then show ?thesis using run Some by (auto simp: resumeActivation_def)
  next
    case (Cons p rest)
    obtain i s where p: "p = (i, s)" by (cases p)
    note rem = Cons [unfolded p]
    note eqs = resumeActivation_cases [OF rem, of _ ffmpeg w]
    note own = owned_at [OF rem Some]
    have wr: "\<And>p d e. vfiles (snd (writeFile ffmpeg p d e)) \<subseteq> insert p (vfiles e)"
      and xr: "\<And>cmd e. fst (exec ffmpeg cmd e) = Rejected \<Longrightarrow>
        vfiles (snd (exec ffmpeg cmd e)) \<subseteq> vfiles e"
      and xf: "\<And>opt p out e. vfiles (snd (exec ffmpeg [opt, p, out] e)) \<subseteq> insert out (vfiles e)"
      and rd: "\<And>p e. vfiles (snd (readFile ffmpeg p e)) \<subseteq> vfiles e"
      and rr: "\<And>p e. fst (readFile ffmpeg p e) = Rejected \<Longrightarrow> p \<notin> vfiles e"
      and dl: "\<And>p e. vfiles (snd (deleteFile ffmpeg p e)) \<subseteq> vfiles e - {p}"
      using c unfolding engineContract_def by blast+
    note ctch = enterCatch_files [OF c, of i s w]
    note fin = enterFinally_files [OF c, of i s w]
    have caught: "a \<in> {Fetch Rejected, Write Rejected, Execute Rejected, Read Rejected,
        DeleteOutput Rejected} \<Longrightarrow> ?thesis"
    proof -
      assume a: "a \<in> {Fetch Rejected, Write Rejected, Execute Rejected, Read Rejected,
        DeleteOutput Rejected}"
      from ctch(2) obtain r where r: "fst (enterCatch ffmpeg i s w) = Some (DeleteInput r)" ..
      have t': "t' = t\<lparr>awaiting := Some (DeleteInput r)\<rparr>"
        and w': "w' = snd (enterCatch ffmpeg i s w)"
        using run eqs(7) [OF Some a] r by simp_all
      have "owned t' = {}" by (simp add: t' owned_update [OF rem])
      moreover have "owned t \<subseteq> {inputName i (theFile s)}"
        using a own by auto
      ultimately show ?thesis using ctch(1) w' by blast
    qed
    show ?thesis
    proof (cases a)
      case (Fetch r)
      show ?thesis
      proof (cases r)
        case (Fulfilled d)
        have "t' = t\<lparr>awaiting := Some (Write (fst (ffmpeg_writeFile ffmpeg (inputName i (theFile s)) d w)))\<rparr>"
          and "w' = snd (ffmpeg_writeFile ffmpeg (inputName i (theFile s)) d w)"
          using run eqs(1) Some Fetch Fulfilled by simp_all
        then show ?thesis
          using wr [of "inputName i (theFile s)" d "engine w"] own Fetch
          by (auto simp: owned_update [OF rem] engine_calls)
      next
        case Rejected
        then show ?thesis using caught Fetch by simp
      qed
    next
      case (Write r)
      show ?thesis
      proof (cases r)
        case (Fulfilled u)
        let ?cmd = "[''-i'', inputName i (theFile s), outputName i (closureFormat t)]"
        have "t' = t\<lparr>awaiting := Some (Execute (fst (ffmpeg_exec ffmpeg ?cmd w)))\<rparr>"
          and "w' = snd (ffmpeg_exec ffmpeg ?cmd w)"
          using run eqs(2) Some Write Fulfilled by simp_all
        then show ?thesis
          using xf [of "''-i''" "inputName i (theFile s)" "outputName i (closureFormat t)" "engine w"]
            xr [of ?cmd "engine w"] own Write
          by (auto simp: owned_update [OF rem] engine_calls outcome_calls)
      next
        case Rejected
        then show ?thesis using caught Write by simp
      qed
    next
      case (Execute r)
      show ?thesis
      proof (cases r)
        case (Fulfilled u)
        have "t' = t\<lparr>awaiting := Some (Read (fst (ffmpeg_readFile ffmpeg (outputName i (closureFormat t)) w)))\<rparr>"
          and "w' = snd (ffmpeg_readFile ffmpeg (outputName i (closureFormat t)) w)"
          using run eqs(3) Some Execute Fulfilled by simp_all
        then show ?thesis
          using rd [of "outputName i (closureFormat t)" "engine w"]
            rr [of "outputName i (closureFormat t)" "engine w"] own Execute Fulfilled
          by (auto simp: owned_update [OF rem] engine_calls outcome_calls)
      next
        case Rejected
        then show ?thesis using caught Execute by simp
      qed
    next
      case (Read r)
      show ?thesis
      proof (cases r)
        case (Fulfilled d)
        let ?w1 = "markDone i (''blob:'' @ showNat (length (objectUrls w)))
            (snd (createObjectURL \<lparr>blob_parts = d,
              blob_type = ''image/'' @ formatString (closureFormat t)\<rparr> w))"
        have "t' = t\<lparr>awaiting := Some (DeleteOutput (fst (ffmpeg_deleteFile ffmpeg
            (outputName i (closureFormat t)) ?w1)))\<rparr>"
          and "w' = snd (ffmpeg_deleteFile ffmpeg (outputName i (closureFormat t)) ?w1)"
          using run eqs(4) Some Read Fulfilled by simp_all
        then show ?thesis
          using dl [of "outputName i (closureFormat t)" "engine w"] own Read Fulfilled
          by (auto simp: owned_update [OF rem] engine_calls)
      next
        case Rejected
        then show ?thesis using caught Read by simp
      qed
    next
      case (DeleteOutput r)
      show ?thesis
      proof (cases r)
        case (Fulfilled u)
        from fin(2) obtain r' where r': "fst (enterFinally ffmpeg i s w) = Some (DeleteInput r')" ..
        have "t' = t\<lparr>awaiting := Some (DeleteInput r')\<rparr>"
          and "w' = snd (enterFinally ffmpeg i s w)"
          using run eqs(5) Some DeleteOutput Fulfilled r' by simp_all
        then show ?thesis
          using fin(1) own DeleteOutput
          by (auto simp: owned_update [OF rem])
      next
        case Rejected
        then show ?thesis using caught DeleteOutput by simp
      qed
    next
      case (DeleteInput r)
      have "t' = t\<lparr>remaining := fst (advance rest w), awaiting := fst (snd (advance rest w))\<rparr>"
        and "w' = snd (snd (advance rest w))"
        using run eqs(6) Some DeleteInput by simp_all
      then show ?thesis
        using own DeleteInput by (simp add: advance_owned advance_engine)
    qed
  qed
qed

lemma owned_fresh:
  "owned \<lparr>closureFormat = f, remaining = fst (advance ps w), awaiting = fst (snd (advance ps w))\<rparr> = {}"
  using advance_awaits [of ps w]
  by (auto simp: owned_def split: list.splits)

lemma startConvertAll_files:
  "engine (page (startConvertAll sys)) = engine (page sys) \<and>
   held (startConvertAll sys) = held sys"
  using advance_engine [of "enumerate 0 (fileStates (page sys))" "setIsConverting True (page sys)"]
    owned_fresh [of "targetFormat (page sys)" "enumerate 0 (fileStates (page sys))"
      "setIsConverting True (page sys)"]
  by (simp add: startConvertAll_def split_beta held_def)

lemma turn_Resume_files:
  assumes c: "engineContract ffmpeg vfiles"
    and inv: "vfiles (engine (page sys)) \<subseteq> F \<union> held sys"
  shows "vfiles (engine (page (turn ffmpeg (Resume k) sys))) \<subseteq>
    F \<union> held (turn ffmpeg (Resume k) sys)"
proof (cases "k < length (activations sys)")
  case False
  then show ?thesis using inv by (simp add: turn_def)
next
  case True
  obtain t' w' where run: "resumeActivation ffmpeg (activations sys ! k) (page sys) = (t', w')"
    by (cases "resumeActivation ffmpeg (activations sys ! k) (page sys)")
  have after: "turn ffmpeg (Resume k) sys = \<lparr>page = w', activations = (activations sys)[k := t']\<rparr>"
    using True run by (simp add: turn_def)
  note step = resumeActivation_files [OF c run]
  show ?thesis
  proof
    fix x
    assume x: "x \<in> vfiles (engine (page (turn ffmpeg (Resume k) sys)))"
    then have x': "x \<in> vfiles (engine w')" by (simp add: after)
    have mine: "t' \<in> set ((activations sys)[k := t'])"
      using True by (simp add: set_update_memI)
    show "x \<in> F \<union> held (turn ffmpeg (Resume k) sys)"
    proof (cases "x \<in> owned t'")
      case True
      then show ?thesis using mine by (auto simp: after held_def)
    next
      case False
      then have "x \<in> vfiles (engine (page sys))" using step x' by blast
      then have "x \<in> F \<or> (\<exists>u \<in> set (activations sys). x \<in> owned u)"
        using inv by (auto simp: held_def)
      then show ?thesis
      proof
        assume "x \<in> F"
        then show ?thesis by simp
      next
        assume "\<exists>u \<in> set (activations sys). x \<in> owned u"
        then obtain j where j: "j < length (activations sys)" "x \<in> owned (activations sys ! j)"
          by (auto simp: in_set_conv_nth)
        have "j \<noteq> k"
        proof
          assume "j = k"
          then have "x \<in> owned (activations sys ! k) - owned t'" using j False by simp
          then show False using step x' by blast
        qed
        then have "(activations sys)[k := t'] ! j = activations sys ! j" by simp
        moreover have "(activations sys)[k := t'] ! j \<in> set ((activations sys)[k := t'])"
          using j by (intro nth_mem) simp
        ultimately show ?thesis using j by (auto simp: after held_def)
      qed
    qed
  qed
qed

lemma turn_files:
  assumes c: "engineContract ffmpeg vfiles"
    and inv: "vfiles (engine (page sys)) \<subseteq> F \<union> held sys"
  shows "vfiles (engine (page (turn ffmpeg ev sys))) \<subseteq> F \<union> held (turn ffmpeg ev sys)"
proof (cases ev)
  case (KeyDown e)
  show ?thesis
  proof (cases "handleKeyDown e")
    case None
    then show ?thesis using inv KeyDown by (simp add: turn_def)
  next
    case (Some cmd)
    then show ?thesis
      using inv KeyDown startConvertAll_files [of sys]
      by (cases cmd) (simp_all add: turn_def runCommand_def setTargetFormat_def held_def)
  qed
next
  case ClickConvert
  then show ?thesis
    using inv startConvertAll_files [of sys] by (simp add: turn_def)
next
  case (SelectFormat fmt)
  then show ?thesis
    using inv by (simp add: turn_def setTargetFormat_def held_def)
next
  case (Resume k)
  then show ?thesis using turn_Resume_files [OF c inv] by simp
qed

lemma turns_files:
  assumes c: "engineContract ffmpeg vfiles"
    and inv: "vfiles (engine (page sys)) \<subseteq> F \<union> held sys"
  shows "vfiles (engine (page (turns ffmpeg evs sys))) \<subseteq> F \<union> held (turns ffmpeg evs sys)"
  using inv
proof (induction evs arbitrary: sys)
  case Nil
  then show ?case by simp
next
  case (Cons ev evs)
  show ?case using turn_files [OF c Cons.prems] by (simp add: Cons.IH)
qed

lemma held_idle:
  assumes "inFlight sys = 0"
  shows "held sys = {}"
proof -
  have "\<forall>t \<in> set (activations sys). awaiting t = None"
    using assms by (simp add: inFlight_def filter_empty_conv)
  then show ?thesis by (simp add: held_def owned_idle)
qed

lemma turns_leave_no_file:
  assumes c: "engineContract ffmpeg vfiles"
    and "inFlight (turns ffmpeg evs sys) = 0"
  shows "vfiles (engine (page (turns ffmpeg evs sys))) \<subseteq> vfiles (engine (page sys))"
  using turns_files [OF c, of sys "vfiles (engine (page sys))" evs] held_idle [OF assms(2)]
  by simp

section \<open>Download names\<close>

lemma split_not_empty: "split sep s \<noteq> []"
  by (induction s) (auto split: list.splits)

lemma first_element_split:
  "first_element (split sep s) = takeWhile (\<lambda>c. c \<noteq> sep) s"
  using split_not_empty [of sep]
  by (induction s) (auto simp: first_element_def split: list.splits)

lemma downloadName_first_dot:
  "downloadName f fmt = takeWhile (\<lambda>c. c \<noteq> CHR ''.'') (name f) @ ''.'' @ formatString fmt"
  by (simp add: downloadName_def first_element_split)

text \<open>
  Claim C1.  The download name is meant to be the name of the source file without its
  extension, followed by the extension of the current target format, so that
  \<^verbatim>\<open>photo.HEIC.jpg\<close> converted to PNG is delivered as \<^verbatim>\<open>photo.HEIC.png\<close>.  The code cuts
  the name at its first dot: in Scenario A the record is done, its payload is tagged
  \<^verbatim>\<open>image/png\<close>, and the one download is named \<^verbatim>\<open>photo.png\<close>.
\<close>

theorem scenarioA_download_name:
  "status (fileStates scenarioA ! 0) = Done \<and>
   map (blob_type \<circ> snd) (objectUrls scenarioA) = [''image/png''] \<and>
   downloadAll scenarioA = [\<lparr>href = Some ''blob:0'', download = ''photo.png''\<rparr>]"
  by code_simp

section \<open>The batch pass\<close>

text \<open>
  One call of \<^verbatim>\<open>handleConvertAll\<close> running alone, its awaits all settling: when it has run
  to its end every record is done or failed and \<^verbatim>\<open>isConverting\<close> is false again, whatever
  the engine did to the individual records; the handler itself is fulfilled.
\<close>

lemma pass_alone_settles_every_record:
  "fst (handleConvertAll ffmpeg w) = Fulfilled () \<and>
   (\<forall>s \<in> set (fileStates (snd (handleConvertAll ffmpeg w))). status s = Done \<or> status s = Error) \<and>
   isConverting (snd (handleConvertAll ffmpeg w)) = False"
proof (intro conjI ballI)
  show "fst (handleConvertAll ffmpeg w) = Fulfilled ()"
    by (simp add: handleConvertAll_eq)
  show "isConverting (snd (handleConvertAll ffmpeg w)) = False"
    by (simp add: handleConvertAll_snd)
  fix s
  assume "s \<in> set (fileStates (snd (handleConvertAll ffmpeg w)))"
  then show "status s = Done \<or> status s = Error"
    by (rule handleConvertAll_statuses)
qed

text \<open>
  Claim C4 says that after a batch pass completes every record is done or failed, none
  idle or converting.  The code does not keep to it when Shift+C starts a second pass
  while the first one is suspended, which nothing in \<^verbatim>\<open>handleKeyDown\<close> or in
  \<^verbatim>\<open>handleConvertAll\<close> prevents.  On two files and an engine that accepts every input: the
  first pass, suspended on the last await of its last record, is resumed and runs to its
  end; it has set \<^verbatim>\<open>isConverting\<close> to false, and the second record is converting, under
  a conversion of the second pass that is still in flight.  Only when the second pass has
  ended as well are both records done.
\<close>

theorem overtaken_pass_ends_with_a_record_converting:
  "awaiting (activations (turns (virtualEngine healthy) (butlast overtaking) pairPage) ! 0) =
     Some (DeleteInput (Fulfilled ())) \<and>
   activations (turns (virtualEngine healthy) overtaking pairPage) ! 0 =
     \<lparr>closureFormat = png, remaining = [], awaiting = None\<rparr> \<and>
   map status (fileStates (page (turns (virtualEngine healthy) overtaking pairPage))) =
     [Done, Converting] \<and>
   isConverting (page (turns (virtualEngine healthy) overtaking pairPage)) = False \<and>
   inFlight (turns (virtualEngine healthy) overtaking pairPage) = 1 \<and>
   map status (fileStates (page (turns (virtualEngine healthy)
     (overtaking @ replicate 6 (Resume 1)) pairPage))) = [Done, Done]"
  by code_simp

text \<open>
  Claim C5.  When the byte transfer, the execution or the retrieval of a record rejects,
  \<^verbatim>\<open>convertFile\<close> is still fulfilled and leaves the record failed with the diagnostic
  \<^verbatim>\<open>Conversion failed\<close>.  \<^verbatim>\<open>handleConvertAll\<close> is fulfilled as well and reaches every record
  that was not done: the cleanup call of its attempt is in the trace of the pass, a failed
  one carries the diagnostic, and a record whose engine requests succeed in whatever state
  the engine is in ends done, whatever happened to the records before it.
\<close>

theorem failure_stays_with_its_record:
  "(i < length (fileStates w) \<and>
      failingStep ffmpeg fmt s i (engine w) \<in> {Some Transfer, Some Execution, Some Retrieval} \<longrightarrow>
        fst (convertFile ffmpeg fmt s i w) = Fulfilled () \<and>
        status (fileStates (snd (convertFile ffmpeg fmt s i w)) ! i) = Error \<and>
        error (fileStates (snd (convertFile ffmpeg fmt s i w)) ! i) = Some ''Conversion failed'') \<and>
   fst (handleConvertAll ffmpeg w) = Fulfilled () \<and>
   (\<forall>j < length (fileStates w). status (fileStates w ! j) \<noteq> Done \<longrightarrow>
      DeleteFile (inputName j (theFile (fileStates w ! j))) \<in>
        set (drop (length (calls w)) (calls (snd (handleConvertAll ffmpeg w)))) \<and>
      (status (fileStates (snd (handleConvertAll ffmpeg w)) ! j) = Error \<longrightarrow>
        error (fileStates (snd (handleConvertAll ffmpeg w)) ! j) = Some ''Conversion failed'') \<and>
      ((\<forall>e. failingStep ffmpeg (targetFormat w) (fileStates w ! j) j e = None) \<longrightarrow>
        status (fileStates (snd (handleConvertAll ffmpeg w)) ! j) = Done))"
proof (intro conjI allI impI)
  show "fst (handleConvertAll ffmpeg w) = Fulfilled ()"
    by (simp add: handleConvertAll_eq)
next
  assume "i < length (fileStates w) \<and>
    failingStep ffmpeg fmt s i (engine w) \<in> {Some Transfer, Some Execution, Some Retrieval}"
  then show "status (fileStates (snd (convertFile ffmpeg fmt s i w)) ! i) = Error"
    and "error (fileStates (snd (convertFile ffmpeg fmt s i w)) ! i) = Some ''Conversion failed''"
    by (auto simp: convertFile_records)
next
  show "fst (convertFile ffmpeg fmt s i w) = Fulfilled ()"
    by (rule convertFile_fulfilled)
next
  fix j
  assume j: "j < length (fileStates w)" "status (fileStates w ! j) \<noteq> Done"
  show "DeleteFile (inputName j (theFile (fileStates w ! j))) \<in>
      set (drop (length (calls w)) (calls (snd (handleConvertAll ffmpeg w))))"
    using j by (rule handleConvertAll_cleanup_call)
  {
    assume "status (fileStates (snd (handleConvertAll ffmpeg w)) ! j) = Error"
    then show "error (fileStates (snd (handleConvertAll ffmpeg w)) ! j) = Some ''Conversion failed''"
      using handleConvertAll_outcome [OF j] by blast
  }
  {
    assume "\<forall>e. failingStep ffmpeg (targetFormat w) (fileStates w ! j) j e = None"
    then show "status (fileStates (snd (handleConvertAll ffmpeg w)) ! j) = Done"
      using handleConvertAll_outcome [OF j] by blast
  }
qed

text \<open>
  Scenario B again: the execution of the second record rejects, the record is failed with
  the diagnostic, and the third record is still converted.
\<close>

theorem failure_stays_with_its_record_witness:
  "failingStep (virtualEngine selective) png (fileStates scenarioB ! 1) 1 (engine scenarioB) =
     Some Execution \<and>
   status (fileStates (snd (convertFile (virtualEngine selective) png
     (fileStates scenarioB ! 1) 1 scenarioB)) ! 1) = Error \<and>
   error (fileStates (snd (convertFile (virtualEngine selective) png
     (fileStates scenarioB ! 1) 1 scenarioB)) ! 1) = Some ''Conversion failed'' \<and>
   fst (handleConvertAll (virtualEngine selective) scenarioB) = Fulfilled () \<and>
   error (fileStates afterB ! 1) = Some ''Conversion failed'' \<and>
   DeleteFile ''input_2_c.x.png'' \<in> set (calls afterB) \<and>
   status (fileStates afterB ! 2) = Done"
proof -
  note T = failure_stays_with_its_record
    [of 1 scenarioB "virtualEngine selective" png "fileStates scenarioB ! 1"]
  have fail: "failingStep (virtualEngine selective) png (fileStates scenarioB ! 1) 1
      (engine scenarioB) = Some Execution"
    by code_simp
  have one: "1 < length (fileStates scenarioB)" and two: "2 < length (fileStates scenarioB)"
    and pending: "status (fileStates scenarioB ! 2) \<noteq> Done"
    and third: "content (theFile (fileStates scenarioB ! 2)) = Some [3]"
    and nm: "inputName 2 (theFile (fileStates scenarioB ! 2)) = ''input_2_c.x.png''"
    and no_calls: "calls scenarioB = []"
    by code_simp+
  have serves: "\<forall>e. failingStep (virtualEngine selective) (targetFormat scenarioB)
      (fileStates scenarioB ! 2) 2 e = None"
    using third by (simp add: selective_serves)
  have a: "status (fileStates (snd (convertFile (virtualEngine selective) png
        (fileStates scenarioB ! 1) 1 scenarioB)) ! 1) = Error \<and>
      error (fileStates (snd (convertFile (virtualEngine selective) png
        (fileStates scenarioB ! 1) 1 scenarioB)) ! 1) = Some ''Conversion failed'' \<and>
      fst (handleConvertAll (virtualEngine selective) scenarioB) = Fulfilled ()"
    using T one fail by simp
  have b: "DeleteFile (inputName 2 (theFile (fileStates scenarioB ! 2))) \<in>
        set (drop (length (calls scenarioB)) (calls afterB)) \<and>
      status (fileStates afterB ! 2) = Done"
    unfolding afterB_def using T two pending serves by blast
  have failed: "status (fileStates scenarioB ! 1) \<noteq> Done"
    "status (fileStates afterB ! 1) = Error"
    by code_simp+
  have c: "error (fileStates afterB ! 1) = Some ''Conversion failed''"
    using T one failed unfolding afterB_def by blast
  show ?thesis
    using fail a b c by (simp add: nm no_calls)
qed

text \<open>
  Claim C7.  A batch pass is \<^verbatim>\<open>convertFile\<close> applied, in the order of the array, to exactly
  the records that are not done.  Hence a pass over records that are all done calls the
  engine not at all and changes nothing, and a second pass right after a pass without
  failures is the identity on the whole page, engine and trace of engine calls included.
  A pass leaves every done record as it is.  Every record that is not done, a failed one
  in particular, is converted again: its bytes are written to the engine under its input
  name, the input name is removed afterwards, and when the engine serves the requests of
  its conversion the record ends done, with an output and without an error.
\<close>

theorem convertAll_skips_done_records:
  "handleConvertAll ffmpeg w =
     (Fulfilled (),
      setIsConverting False
        (foldl (\<lambda>v p. snd (convertFile ffmpeg (targetFormat w) (snd p) (fst p) v))
           (setIsConverting True w)
           (filter (\<lambda>p. status (snd p) \<noteq> Done) (enumerate 0 (fileStates w))))) \<and>
   ((\<forall>s \<in> set (fileStates w). status s = Done) \<longrightarrow>
      handleConvertAll ffmpeg w = (Fulfilled (), setIsConverting False w)) \<and>
   ((\<forall>s \<in> set (fileStates (snd (handleConvertAll ffmpeg w))). status s \<noteq> Error) \<longrightarrow>
      handleConvertAll ffmpeg (snd (handleConvertAll ffmpeg w)) =
        (Fulfilled (), snd (handleConvertAll ffmpeg w))) \<and>
   (\<forall>i < length (fileStates w). status (fileStates w ! i) = Done \<longrightarrow>
      fileStates (snd (handleConvertAll ffmpeg w)) ! i = fileStates w ! i) \<and>
   (\<forall>i < length (fileStates w). status (fileStates w ! i) \<noteq> Done \<longrightarrow>
      DeleteFile (inputName i (theFile (fileStates w ! i))) \<in>
        set (drop (length (calls w)) (calls (snd (handleConvertAll ffmpeg w)))) \<and>
      (\<forall>d. content (theFile (fileStates w ! i)) = Some d \<longrightarrow>
         WriteFile (inputName i (theFile (fileStates w ! i))) d \<in>
           set (drop (length (calls w)) (calls (snd (handleConvertAll ffmpeg w))))) \<and>
      ((\<forall>e. failingStep ffmpeg (targetFormat w) (fileStates w ! i) i e = None) \<longrightarrow>
         status (fileStates (snd (handleConvertAll ffmpeg w)) ! i) = Done \<and>
         outputUrl (fileStates (snd (handleConvertAll ffmpeg w)) ! i) \<noteq> None \<and>
         error (fileStates (snd (handleConvertAll ffmpeg w)) ! i) = None))"
proof (intro conjI allI impI)
  show "handleConvertAll ffmpeg w =
     (Fulfilled (),
      setIsConverting False
        (foldl (\<lambda>v p. snd (convertFile ffmpeg (targetFormat w) (snd p) (fst p) v))
           (setIsConverting True w)
           (filter (\<lambda>p. status (snd p) \<noteq> Done) (enumerate 0 (fileStates w)))))"
    by (rule handleConvertAll_fold)
next
  assume "\<forall>s \<in> set (fileStates w). status s = Done"
  then show "handleConvertAll ffmpeg w = (Fulfilled (), setIsConverting False w)"
    by (rule handleConvertAll_all_done)
next
  let ?w1 = "snd (handleConvertAll ffmpeg w)"
  assume "\<forall>s \<in> set (fileStates ?w1). status s \<noteq> Error"
  then have "\<forall>s \<in> set (fileStates ?w1). status s = Done"
    using handleConvertAll_statuses [of _ ffmpeg w] by blast
  then have "handleConvertAll ffmpeg ?w1 = (Fulfilled (), setIsConverting False ?w1)"
    by (rule handleConvertAll_all_done)
  moreover have "setIsConverting False ?w1 = ?w1"
    by (simp add: handleConvertAll_snd setIsConverting_def)
  ultimately show "handleConvertAll ffmpeg ?w1 = (Fulfilled (), ?w1)"
    by simp
next
  fix i
  assume "i < length (fileStates w)" and "status (fileStates w ! i) = Done"
  then show "fileStates (snd (handleConvertAll ffmpeg w)) ! i = fileStates w ! i"
    by (rule handleConvertAll_skips)
next
  fix i
  assume "i < length (fileStates w)" and "status (fileStates w ! i) \<noteq> Done"
  then show "DeleteFile (inputName i (theFile (fileStates w ! i))) \<in>
      set (drop (length (calls w)) (calls (snd (handleConvertAll ffmpeg w))))"
    by (rule handleConvertAll_cleanup_call)
next
  fix i d
  assume "i < length (fileStates w)" and "status (fileStates w ! i) \<noteq> Done"
    and "content (theFile (fileStates w ! i)) = Some d"
  then show "WriteFile (inputName i (theFile (fileStates w ! i))) d \<in>
      set (drop (length (calls w)) (calls (snd (handleConvertAll ffmpeg w))))"
    by (rule handleConvertAll_write_call)
next
  fix i
  assume i: "i < length (fileStates w)" "status (fileStates w ! i) \<noteq> Done"
    and ok: "\<forall>e. failingStep ffmpeg (targetFormat w) (fileStates w ! i) i e = None"
  note conv = handleConvertAll_converts [OF i ok]
  show "status (fileStates (snd (handleConvertAll ffmpeg w)) ! i) = Done"
    using conv by simp
  show "outputUrl (fileStates (snd (handleConvertAll ffmpeg w)) ! i) \<noteq> None"
    using conv by simp
  show "error (fileStates (snd (handleConvertAll ffmpeg w)) ! i) = None"
    using conv by simp
qed

text \<open>
  After Scenario A a second pass leaves the page as it is.  After Scenario B, where the
  second of three records failed, a second pass on an engine that accepts every input
  keeps the first and the third record and converts the second: the engine calls of that
  pass are the five calls of one conversion of the second record, which ends done.  On
  the engine of Scenario B the second pass writes and executes the second record again.
\<close>

theorem convertAll_skips_done_records_witness:
  "handleConvertAll (virtualEngine healthy) scenarioA = (Fulfilled (), scenarioA) \<and>
   handleConvertAll (virtualEngine healthy)
     (snd (handleConvertAll (virtualEngine healthy) (freshPage [photo]))) =
     (Fulfilled (), snd (handleConvertAll (virtualEngine healthy) (freshPage [photo]))) \<and>
   calls (snd (handleConvertAll (virtualEngine healthy) scenarioA)) = calls scenarioA \<and>
   map status (fileStates afterB) = [Done, Error, Done] \<and>
   fileStates (snd (handleConvertAll (virtualEngine healthy) afterB)) ! 0 = fileStates afterB ! 0 \<and>
   fileStates (snd (handleConvertAll (virtualEngine healthy) afterB)) ! 2 = fileStates afterB ! 2 \<and>
   status (fileStates (snd (handleConvertAll (virtualEngine healthy) afterB)) ! 1) = Done \<and>
   outputUrl (fileStates (snd (handleConvertAll (virtualEngine healthy) afterB)) ! 1) = Some ''blob:2'' \<and>
   drop (length (calls afterB)) (calls (snd (handleConvertAll (virtualEngine healthy) afterB))) =
     [WriteFile ''input_1_b.png'' [0, 2], Exec [''-i'', ''input_1_b.png'', ''output_1.png''],
      ReadFile ''output_1.png'', DeleteFile ''output_1.png'', DeleteFile ''input_1_b.png''] \<and>
   drop (length (calls afterB)) (calls (snd (handleConvertAll (virtualEngine selective) afterB))) =
     [WriteFile ''input_1_b.png'' [0, 2], Exec [''-i'', ''input_1_b.png'', ''output_1.png''],
      DeleteFile ''input_1_b.png'']"
proof -
  have all_done: "\<forall>s \<in> set (fileStates scenarioA). status s = Done"
    and idle: "setIsConverting False scenarioA = scenarioA"
    by code_simp+
  have len: "length (fileStates afterB) = 3"
    and sts: "map status (fileStates afterB) = [Done, Error, Done]"
    and first: "status (fileStates afterB ! 0) = Done"
    and second: "status (fileStates afterB ! 1) \<noteq> Done"
    and third: "status (fileStates afterB ! 2) = Done"
    and cnt: "content (theFile (fileStates afterB ! 1)) = Some [0, 2]"
    by code_simp+
  have url: "outputUrl (fileStates (snd (handleConvertAll (virtualEngine healthy) afterB)) ! 1) =
      Some ''blob:2''"
    by code_simp
  have healthy_calls:
    "drop (length (calls afterB)) (calls (snd (handleConvertAll (virtualEngine healthy) afterB))) =
     [WriteFile ''input_1_b.png'' [0, 2], Exec [''-i'', ''input_1_b.png'', ''output_1.png''],
      ReadFile ''output_1.png'', DeleteFile ''output_1.png'', DeleteFile ''input_1_b.png'']"
    by code_simp
  have selective_calls:
    "drop (length (calls afterB)) (calls (snd (handleConvertAll (virtualEngine selective) afterB))) =
     [WriteFile ''input_1_b.png'' [0, 2], Exec [''-i'', ''input_1_b.png'', ''output_1.png''],
      DeleteFile ''input_1_b.png'']"
    by code_simp
  have serves: "\<forall>e. failingStep (virtualEngine healthy) (targetFormat afterB)
      (fileStates afterB ! 1) 1 e = None"
    using healthy_serves [OF cnt] by simp
  note T = convertAll_skips_done_records [of "virtualEngine healthy" afterB, THEN conjunct2]
  have a: "handleConvertAll (virtualEngine healthy) scenarioA = (Fulfilled (), scenarioA)"
    using convertAll_skips_done_records [of "virtualEngine healthy" scenarioA, THEN conjunct2]
      all_done idle
    by simp
  have b0: "fileStates (snd (handleConvertAll (virtualEngine healthy) afterB)) ! 0 =
      fileStates afterB ! 0"
    using T len first by simp
  have b2: "fileStates (snd (handleConvertAll (virtualEngine healthy) afterB)) ! 2 =
      fileStates afterB ! 2"
    using T len third by simp
  have "1 < length (fileStates afterB)" using len by simp
  then have c: "status (fileStates (snd (handleConvertAll (virtualEngine healthy) afterB)) ! 1) = Done"
    using T second serves by blast
  have no_failure: "\<forall>s \<in> set (fileStates
      (snd (handleConvertAll (virtualEngine healthy) (freshPage [photo])))). status s \<noteq> Error"
    by code_simp
  have d: "handleConvertAll (virtualEngine healthy)
      (snd (handleConvertAll (virtualEngine healthy) (freshPage [photo]))) =
      (Fulfilled (), snd (handleConvertAll (virtualEngine healthy) (freshPage [photo])))"
    using convertAll_skips_done_records [of "virtualEngine healthy" "freshPage [photo]",
        THEN conjunct2] no_failure
    by blast
  show ?thesis using a b0 b2 c d sts url healthy_calls selective_calls by simp
qed

section \<open>The record of a conversion\<close>

text \<open>
  Claim C9.  In an execution of \<^verbatim>\<open>convertFile\<close> in which the write, the execution and the
  read are fulfilled and the removal of the virtual output file rejects, the \<^verbatim>\<open>try\<close>
  block has already marked the record done and stored its output URL when it rejects;
  the \<^verbatim>\<open>catch\<close> block then marks the record failed with \<^verbatim>\<open>Conversion failed\<close>, and the
  output URL stays.
\<close>

theorem failed_output_removal_overwrites_done:
  assumes "i < length (fileStates w)"
    and "failingStep ffmpeg fmt s i (engine w) = Some OutputRemoval"
  shows "fst (convertFile_try ffmpeg fmt s i w) = Rejected \<and>
    status (fileStates (snd (convertFile_try ffmpeg fmt s i w)) ! i) = Done \<and>
    outputUrl (fileStates (snd (convertFile_try ffmpeg fmt s i w)) ! i) =
      Some (''blob:'' @ showNat (length (objectUrls w))) \<and>
    status (fileStates (snd (convertFile ffmpeg fmt s i w)) ! i) = Error \<and>
    error (fileStates (snd (convertFile ffmpeg fmt s i w)) ! i) = Some ''Conversion failed'' \<and>
    outputUrl (fileStates (snd (convertFile ffmpeg fmt s i w)) ! i) =
      Some (''blob:'' @ showNat (length (objectUrls w)))"
proof -
  from assms(2) obtain d e1 e2 out e3 e4 where chain:
    "content (theFile s) = Some d"
    "writeFile ffmpeg (inputName i (theFile s)) d (engine w) = (Fulfilled (), e1)"
    "exec ffmpeg [''-i'', inputName i (theFile s), outputName i fmt] e1 = (Fulfilled (), e2)"
    "readFile ffmpeg (outputName i fmt) e2 = (Fulfilled out, e3)"
    "deleteFile ffmpeg (outputName i fmt) e3 = (Rejected, e4)"
    by (rule failing_OutputRemoval_chain)
  have "fst (convertFile_try ffmpeg fmt s i w) = Rejected \<and>
      status (fileStates (snd (convertFile_try ffmpeg fmt s i w)) ! i) = Done \<and>
      outputUrl (fileStates (snd (convertFile_try ffmpeg fmt s i w)) ! i) =
        Some (''blob:'' @ showNat (length (objectUrls w)))"
    using assms(1) by (simp add: try_read_fulfilled [OF chain] mark_defs)
  then show ?thesis
    using assms by (simp add: convertFile_records)
qed

text \<open>Such an execution exists: an engine whose read disposes of the file it returns.\<close>

theorem failed_output_removal_overwrites_done_witness:
  "failingStep (virtualEngine disposing) png (fileStates (freshPage [photo]) ! 0) 0
     (engine (freshPage [photo])) = Some OutputRemoval \<and>
   status (fileStates (snd (convertFile_try (virtualEngine disposing) png
     (fileStates (freshPage [photo]) ! 0) 0 (freshPage [photo]))) ! 0) = Done \<and>
   status (fileStates (snd (convertFile (virtualEngine disposing) png
     (fileStates (freshPage [photo]) ! 0) 0 (freshPage [photo]))) ! 0) = Error \<and>
   outputUrl (fileStates (snd (convertFile (virtualEngine disposing) png
     (fileStates (freshPage [photo]) ! 0) 0 (freshPage [photo]))) ! 0) = Some ''blob:0''"
proof -
  have fail: "failingStep (virtualEngine disposing) png (fileStates (freshPage [photo]) ! 0) 0
      (engine (freshPage [photo])) = Some OutputRemoval"
    and len: "0 < length (fileStates (freshPage [photo]))"
    and url: "''blob:'' @ showNat (length (objectUrls (freshPage [photo]))) = ''blob:0''"
    by code_simp+
  show ?thesis
    using failed_output_removal_overwrites_done [OF len fail] fail
    by (simp only: url)
qed

text \<open>
  Claim C6.  A record is meant to carry an output exactly when it is done, and to change
  its status along idle, converting, done or failed (and failed to converting).  On the
  engine whose read disposes of the file, one \<^verbatim>\<open>convertFile\<close> of a fresh record marks
  it done inside the \<^verbatim>\<open>try\<close> block and then failed: the record ends failed, with its
  output URL set.  On the healthy engine the same happens to the record that two
  overlapping calls of the handler convert: the removal of the output by the second call
  rejects after the first call has removed it.
\<close>

theorem failed_record_keeps_output_url:
  "map status (fileStates (snd (convertFile_try (virtualEngine disposing) png
      (fileStates (freshPage [photo]) ! 0) 0 (freshPage [photo])))) = [Done] \<and>
   fileStates (snd (convertFile (virtualEngine disposing) png
      (fileStates (freshPage [photo]) ! 0) 0 (freshPage [photo]))) =
     [\<lparr>theFile = photo, status = Error, outputUrl = Some ''blob:0'',
       error = Some ''Conversion failed''\<rparr>] \<and>
   map (\<lambda>s. (status s, outputUrl s))
     (fileStates (page (turns (virtualEngine healthy) (KeyDown shiftC # KeyDown shiftC # alternately)
        loadedPage))) = [(Error, Some ''blob:1'')]"
  by code_simp

section \<open>Downloads follow the current format\<close>

text \<open>
  Claim C10.  The extension of a download name is the target format at the time of the
  download: for a done record, after the target format was set to \<open>fmt\<close>, the record's
  link and \<^verbatim>\<open>downloadAll\<close> deliver the same URL under the name cut at the first dot and
  followed by \<open>fmt\<close>; setting the format changes neither the records nor the registered
  payloads, and a different format gives a different name.
\<close>

theorem download_name_follows_current_format:
  assumes "s \<in> set (fileStates w)" and "status s = Done"
  shows "fileStates (setTargetFormat fmt w) = fileStates w \<and>
    objectUrls (setTargetFormat fmt w) = objectUrls w \<and>
    recordLink (targetFormat (setTargetFormat fmt w)) s =
      Some \<lparr>href = outputUrl s,
        download = takeWhile (\<lambda>c. c \<noteq> CHR ''.'') (name (theFile s)) @ ''.'' @ formatString fmt\<rparr> \<and>
    (truthy (outputUrl s) \<longrightarrow>
      \<lparr>href = outputUrl s,
        download = takeWhile (\<lambda>c. c \<noteq> CHR ''.'') (name (theFile s)) @ ''.'' @ formatString fmt\<rparr>
        \<in> set (downloadAll (setTargetFormat fmt w))) \<and>
    (fmt \<noteq> targetFormat w \<longrightarrow>
      downloadName (theFile s) (targetFormat (setTargetFormat fmt w)) \<noteq>
        downloadName (theFile s) (targetFormat w))"
  using assms
  by (auto simp: setTargetFormat_def recordLink_def downloadAll_def downloadName_first_dot
      image_iff dest: formatString_inj)

text \<open>
  The record of Scenario A was converted to PNG; once JPEG is selected its payload, still
  tagged \<^verbatim>\<open>image/png\<close>, is delivered as \<^verbatim>\<open>photo.jpeg\<close>.
\<close>

theorem download_name_follows_current_format_witness:
  "map (blob_type \<circ> snd) (objectUrls scenarioA) = [''image/png''] \<and>
   map (blob_type \<circ> snd) (objectUrls (setTargetFormat jpeg scenarioA)) = [''image/png''] \<and>
   recordLink (targetFormat (setTargetFormat jpeg scenarioA)) (fileStates scenarioA ! 0) =
     Some \<lparr>href = Some ''blob:0'', download = ''photo.jpeg''\<rparr> \<and>
   \<lparr>href = Some ''blob:0'', download = ''photo.jpeg''\<rparr>
     \<in> set (downloadAll (setTargetFormat jpeg scenarioA)) \<and>
   downloadName (theFile (fileStates scenarioA ! 0)) (targetFormat scenarioA) = ''photo.png'' \<and>
   downloadName (theFile (fileStates scenarioA ! 0)) (targetFormat (setTargetFormat jpeg scenarioA)) \<noteq>
     downloadName (theFile (fileStates scenarioA ! 0)) (targetFormat scenarioA)"
proof -
  have mem: "fileStates scenarioA ! 0 \<in> set (fileStates scenarioA)"
    and dn: "status (fileStates scenarioA ! 0) = Done"
    and tr: "truthy (outputUrl (fileStates scenarioA ! 0))"
    and url: "outputUrl (fileStates scenarioA ! 0) = Some ''blob:0''"
    and nm: "takeWhile (\<lambda>c. c \<noteq> CHR ''.'') (name (theFile (fileStates scenarioA ! 0))) = ''photo''"
    and ty: "map (blob_type \<circ> snd) (objectUrls scenarioA) = [''image/png'']"
    and old: "downloadName (theFile (fileStates scenarioA ! 0)) (targetFormat scenarioA) =
      ''photo.png''"
    and other: "jpeg \<noteq> targetFormat scenarioA"
    by code_simp+
  have changed: "downloadName (theFile (fileStates scenarioA ! 0))
      (targetFormat (setTargetFormat jpeg scenarioA)) \<noteq>
      downloadName (theFile (fileStates scenarioA ! 0)) (targetFormat scenarioA)"
    using download_name_follows_current_format [OF mem dn, of jpeg] other by blast
  show ?thesis
    using download_name_follows_current_format [OF mem dn, of jpeg] tr ty old changed
    by (simp add: url nm)
qed

section \<open>Cleanup of the engine's files\<close>

text \<open>
  Claim C2.  Every attempt is fulfilled and ends with the removal of the virtual input
  name, whose outcome is ignored; the removal of the virtual output name is called
  exactly when write, execution and read were fulfilled.  On an engine that keeps to the
  contract above the attempt leaves no file behind: the files after it are among those
  before it, without the input name, and without the output name unless the attempt
  failed in the transfer or in the execution, before an output was made.  The same holds
  for whole runs, overlapping handlers included: whenever no conversion is in flight, the
  engine holds no file that it did not hold at the start.
\<close>

theorem cleanup_under_engine_contract:
  assumes "engineContract ffmpeg vfiles"
  shows "fst (convertFile ffmpeg fmt s i w) = Fulfilled () \<and>
    last (calls (snd (convertFile ffmpeg fmt s i w))) = DeleteFile (inputName i (theFile s)) \<and>
    (DeleteFile (outputName i fmt) \<in> set (drop (length (calls w))
        (calls (snd (convertFile ffmpeg fmt s i w))))) =
      (failingStep ffmpeg fmt s i (engine w) \<in> {None, Some OutputRemoval}) \<and>
    vfiles (engine (snd (convertFile ffmpeg fmt s i w))) \<subseteq>
      vfiles (engine w) - {inputName i (theFile s)} \<and>
    (failingStep ffmpeg fmt s i (engine w) \<notin> {Some Transfer, Some Execution} \<longrightarrow>
      outputName i fmt \<notin> vfiles (engine (snd (convertFile ffmpeg fmt s i w)))) \<and>
    (inFlight (turns ffmpeg evs sys) = 0 \<longrightarrow>
      vfiles (engine (page (turns ffmpeg evs sys))) \<subseteq> vfiles (engine (page sys)))"
  using convertFile_engine [OF assms, of fmt s i w] convertFile_last_call [of ffmpeg fmt s i w]
    convertFile_fulfilled [of ffmpeg fmt s i w] convertFile_output_gone [OF assms, of fmt s i w]
    turns_leave_no_file [OF assms, of evs sys]
  by blast

text \<open>
  The engine with a codec that accepts every input keeps to the contract; after
  Scenario A it holds no file, and the trace ends with the removal of the input.  It
  holds no file either after two overlapping conversions of the same record.  Failed
  attempts leave none: the second record of Scenario B, whose execution rejects, the
  whole pass of Scenario B, and the attempt whose removal of the output rejects on an
  engine that disposes of a file read.
\<close>

theorem cleanup_under_engine_contract_witness:
  "engineContract (virtualEngine healthy) vfsNames \<and>
   vfsNames (engine scenarioA) = {} \<and>
   last (calls scenarioA) = DeleteFile ''input_0_photo.HEIC.jpg'' \<and>
   DeleteFile ''output_0.png'' \<in> set (calls scenarioA) \<and>
   inFlight (turns (virtualEngine healthy) (KeyDown shiftC # KeyDown shiftC # alternately)
     loadedPage) = 0 \<and>
   vfsNames (engine (page (turns (virtualEngine healthy)
     (KeyDown shiftC # KeyDown shiftC # alternately) loadedPage))) = {} \<and>
   engineContract (virtualEngine selective) vfsNames \<and>
   failingStep (virtualEngine selective) png (fileStates scenarioB ! 1) 1 (engine scenarioB) =
     Some Execution \<and>
   vfsNames (engine (snd (convertFile (virtualEngine selective) png (fileStates scenarioB ! 1) 1
     scenarioB))) = {} \<and>
   vfsNames (engine afterB) = {} \<and>
   engineContract (virtualEngine disposing) vfsNames \<and>
   failingStep (virtualEngine disposing) png (fileStates (freshPage [photo]) ! 0) 0
     (engine (freshPage [photo])) = Some OutputRemoval \<and>
   vfsNames (engine (snd (convertFile (virtualEngine disposing) png
     (fileStates (freshPage [photo]) ! 0) 0 (freshPage [photo])))) = {}"
proof -
  have c: "engineContract (virtualEngine healthy) vfsNames"
    and cs: "engineContract (virtualEngine selective) vfsNames"
    and cd: "engineContract (virtualEngine disposing) vfsNames"
    by (rule virtualEngine_contract)+
  have empty: "vfsNames (engine (freshPage [photo])) = {}"
    and emptyB: "vfsNames (engine scenarioB) = {}"
    by (simp_all add: scenarioB_def freshPage_def mount_def vfsNames_def)
  have nm: "inputName 0 (theFile (fileStates (freshPage [photo]) ! 0)) = ''input_0_photo.HEIC.jpg''"
    and out: "outputName 0 png = ''output_0.png''"
    and no_calls: "calls (freshPage [photo]) = []"
    and ok: "failingStep (virtualEngine healthy) png (fileStates (freshPage [photo]) ! 0) 0
      (engine (freshPage [photo])) = None"
    and quiet: "inFlight (turns (virtualEngine healthy)
      (KeyDown shiftC # KeyDown shiftC # alternately) loadedPage) = 0"
    and start: "engine (page loadedPage) = []"
    and refused: "failingStep (virtualEngine selective) png (fileStates scenarioB ! 1) 1
      (engine scenarioB) = Some Execution"
    and absent: "failingStep (virtualEngine disposing) png (fileStates (freshPage [photo]) ! 0) 0
      (engine (freshPage [photo])) = Some OutputRemoval"
    and passB: "engine afterB = []"
    by code_simp+
  have a: "vfsNames (engine scenarioA) = {} \<and>
      last (calls scenarioA) = DeleteFile ''input_0_photo.HEIC.jpg'' \<and>
      DeleteFile ''output_0.png'' \<in> set (calls scenarioA) \<and>
      vfsNames (engine (page (turns (virtualEngine healthy)
        (KeyDown shiftC # KeyDown shiftC # alternately) loadedPage))) = {}"
    using cleanup_under_engine_contract [OF c, of png "fileStates (freshPage [photo]) ! 0" 0
        "freshPage [photo]" "KeyDown shiftC # KeyDown shiftC # alternately" loadedPage]
      empty ok quiet
    by (simp add: scenarioA_def nm out no_calls start vfsNames_def)
  have b: "vfsNames (engine (snd (convertFile (virtualEngine selective) png
      (fileStates scenarioB ! 1) 1 scenarioB))) = {}"
    using cleanup_under_engine_contract [OF cs, of png "fileStates scenarioB ! 1" 1 scenarioB
        "[]" loadedPage] emptyB
    by simp
  have d: "vfsNames (engine (snd (convertFile (virtualEngine disposing) png
      (fileStates (freshPage [photo]) ! 0) 0 (freshPage [photo])))) = {}"
    using cleanup_under_engine_contract [OF cd, of png "fileStates (freshPage [photo]) ! 0" 0
        "freshPage [photo]" "[]" loadedPage] empty
    by simp
  show ?thesis
    using a b d c cs cd quiet refused absent by (simp add: passB vfsNames_def)
qed

section \<open>The clear command\<close>

text \<open>
  Claim C8, as stated, fails: after the record of Scenario A was converted, clearing
  leaves its payload registered under its object URL.  Nothing in the repository calls
  \<^verbatim>\<open>URL.revokeObjectURL\<close> on an output URL.
\<close>

theorem clear_keeps_object_urls_counterexample:
  "batch convertedApp \<noteq> [] \<and>
   map outputUrl (batch convertedApp) = [Some ''blob:0''] \<and>
   objectUrls (converter (clearFiles convertedApp)) =
     [(''blob:0'', \<lparr>blob_parts = [3, 2, 1], blob_type = ''image/png''\<rparr>)]"
  by code_simp

text \<open>
  Claim C8, amended.  The clear command empties the files, so that no record is left and
  the Dropzone is rendered again; it changes neither the registry of object URLs nor the
  engine.
\<close>

theorem clear_empties_the_batch:
  "files (clearFiles a) = [] \<and>
   batch (clearFiles a) = [] \<and>
   render (clearFiles a) = DropzoneView \<and>
   objectUrls (converter (clearFiles a)) = objectUrls (converter a) \<and>
   engine (converter (clearFiles a)) = engine (converter a)"
  by (simp add: clearFiles_def batch_def render_def)

section \<open>Overlapping calls of the handler\<close>

text \<open>
  Claim C3.  At most one conversion is meant to be in flight at any instant.  The convert
  button is disabled while \<^verbatim>\<open>isConverting\<close> is set, but the shortcut Shift+C calls
  \<^verbatim>\<open>handleConvertAll\<close> unguarded: pressed twice on a page with one file, it leaves two
  conversions of the same record in flight.  Resumed in turn on a healthy engine, their
  engine calls interleave, the second removal of the output rejects, and the record ends
  failed although both conversions produced an output.  Two clicks on the button start one
  conversion.
\<close>

theorem key_presses_start_overlapping_conversions:
  "handleKeyDown shiftC = Some ConvertAll \<and>
   inFlight (turns (virtualEngine healthy) [KeyDown shiftC, KeyDown shiftC] loadedPage) = 2 \<and>
   calls (page (turns (virtualEngine healthy) (KeyDown shiftC # KeyDown shiftC # alternately)
     loadedPage)) =
     [WriteFile ''input_0_photo.HEIC.jpg'' [1, 2, 3], WriteFile ''input_0_photo.HEIC.jpg'' [1, 2, 3],
      Exec [''-i'', ''input_0_photo.HEIC.jpg'', ''output_0.png''],
      Exec [''-i'', ''input_0_photo.HEIC.jpg'', ''output_0.png''],
      ReadFile ''output_0.png'', ReadFile ''output_0.png'',
      DeleteFile ''output_0.png'', DeleteFile ''output_0.png'',
      DeleteFile ''input_0_photo.HEIC.jpg'', DeleteFile ''input_0_photo.HEIC.jpg''] \<and>
   fileStates (page (turns (virtualEngine healthy) (KeyDown shiftC # KeyDown shiftC # alternately)
     loadedPage)) =
     [\<lparr>theFile = photo, status = Error, outputUrl = Some ''blob:1'',
       error = Some ''Conversion failed''\<rparr>] \<and>
   inFlight (turns (virtualEngine healthy) [ClickConvert, ClickConvert] loadedPage) = 1"
  by code_simp

end
